theory Spec2Isabelle
  imports Main
begin

section \<open>Strings\<close>

text \<open>
  Go strings are byte sequences; they are modelled as \<open>string\<close> (a list of 8-bit
  characters). The functions of package \<open>strings\<close> used by the sources are modelled on
  ASCII input, which is what domain names are made of: \<open>ToLower\<close> maps the bytes
  \<open>A..Z\<close> to \<open>a..z\<close> and leaves every other byte alone, \<open>TrimSpace\<close> removes the
  ASCII white space bytes (tab, line feed, vertical tab, form feed, carriage return,
  space) from both ends. On input with bytes above 0x7F Go works on runes; that part of
  the library is outside the model.
\<close>

definition isUpperASCII :: "char \<Rightarrow> bool" where
  "isUpperASCII c = (65 \<le> (of_char c :: nat) \<and> (of_char c :: nat) \<le> 90)"

definition toLowerByte :: "char \<Rightarrow> char" where
  "toLowerByte c = (if isUpperASCII c then char_of ((of_char c :: nat) + 32) else c)"

definition ToLower :: "string \<Rightarrow> string" where
  "ToLower s = map toLowerByte s"

definition isSpaceByte :: "char \<Rightarrow> bool" where
  "isSpaceByte c = ((of_char c :: nat) \<in> {9, 10, 11, 12, 13, 32})"

definition TrimSpace :: "string \<Rightarrow> string" where
  "TrimSpace s = rev (dropWhile isSpaceByte (rev (dropWhile isSpaceByte s)))"

text \<open>\<open>strings.HasSuffix(s, suffix)\<close>:
  \<^verbatim>\<open>len(s) >= len(suffix) && s[len(s)-len(suffix):] == suffix\<close>.\<close>

definition HasSuffix :: "string \<Rightarrow> string \<Rightarrow> bool" where
  "HasSuffix s suf = (length suf \<le> length s \<and> drop (length s - length suf) s = suf)"


section \<open>Scope membership of a name (cmd/amass/subs.go)\<close>

text \<open>
  \<^verbatim>\<open>
  func domainNameInScope(name string, scope []string) bool {
      var discovered bool
      n := strings.ToLower(strings.TrimSpace(name))
      for _, d := range scope {
          d = strings.ToLower(d)
          if n == d || strings.HasSuffix(n, "."+d) {
              discovered = true
              break
          }
      }
      return discovered
  }
  \<close>
  The loop is \<open>scopeLoop\<close>: it leaves with \<open>true\<close> at the first root that matches and
  with the initial \<open>false\<close> when the roots are used up.
\<close>

fun scopeLoop :: "string \<Rightarrow> string list \<Rightarrow> bool" where
  "scopeLoop n [] = False"
| "scopeLoop n (d # ds) =
     (let d' = ToLower d
      in if n = d' \<or> HasSuffix n (''.'' @ d') then True else scopeLoop n ds)"

definition domainNameInScope :: "string \<Rightarrow> string list \<Rightarrow> bool" where
  "domainNameInScope name scope = scopeLoop (ToLower (TrimSpace name)) scope"

text \<open>
  The membership test as the specification words it: the name equals a root, or ends
  with a dot followed by the root, both compared without regard to case.
\<close>

definition matchesRoot :: "string \<Rightarrow> string \<Rightarrow> bool" where
  "matchesRoot d r =
     (ToLower d = ToLower r \<or> HasSuffix (ToLower d) (''.'' @ ToLower r))"

definition inScopeSpec :: "string \<Rightarrow> string list \<Rightarrow> bool" where
  "inScopeSpec d scope = (\<exists>r \<in> set scope. matchesRoot d r)"


section \<open>Sessions (engine/sessions)\<close>

text \<open>
  The \<open>done\<close> field of a session is a \<^verbatim>\<open>chan struct{}\<close> on which nothing is ever
  sent: it is either open or closed. Receiving from it in a \<^verbatim>\<open>select\<close> with a
  \<^verbatim>\<open>default\<close> branch succeeds exactly when it is closed. Closing a closed channel
  panics.
\<close>

datatype chan = Open | Closed

datatype panic = CloseOfClosedChannel | NilDereference | TypeAssertion

datatype handle = Live | Released

record SessionStats =
  WorkItemsCompleted :: int
  WorkItemsTotal :: int

text \<open>
  The session, with the fields the session manager and \<open>Kill\<close>/\<open>Done\<close> touch:
  the cache, the database and the event set are handles that are \<open>None\<close> when the Go
  value is \<open>nil\<close>; \<open>tmpdir\<close> is the path \<open>TmpDir()\<close> returns; \<open>sid\<close> is the field \<open>id\<close>
  and \<open>done_ch\<close> the field \<open>done\<close>.
\<close>

record Session =
  sid :: nat
  c :: "handle option"
  db :: "handle option"
  eventset :: "handle option"
  tmpdir :: string
  stats :: SessionStats
  done_ch :: chan

definition close_chan :: "chan \<Rightarrow> panic + chan" where
  "close_chan ch = (case ch of Open \<Rightarrow> Inr Closed | Closed \<Rightarrow> Inl CloseOfClosedChannel)"

text \<open>
  \<^verbatim>\<open>
  func (s *Session) Done() bool {
      select {
      case <-s.done:
          return true
      default:
      }
      return false
  }

  func (s *Session) Kill() {
      select {
      case <-s.done:
          return
      default:
      }
      close(s.done)
  }
  \<close>
\<close>

definition Done :: "Session \<Rightarrow> bool" where
  "Done s = (case done_ch s of Closed \<Rightarrow> True | Open \<Rightarrow> False)"

definition Kill :: "Session \<Rightarrow> panic + Session" where
  "Kill s =
     (case done_ch s of
        Closed \<Rightarrow> Inr s
      | Open \<Rightarrow> (case close_chan (done_ch s) of
                  Inl p \<Rightarrow> Inl p
                | Inr ch \<Rightarrow> Inr (s\<lparr>done_ch := ch\<rparr>)))"


section \<open>The session manager's constructor (engine/sessions/manager.go)\<close>

datatype logline = LogError string | LogInfo string

record manager =
  redis :: "string \<times> string"
  sessions :: "nat \<rightharpoonup> Session"

text \<open>
  \<^verbatim>\<open>
  func NewManager(l *slog.Logger) et.SessionManager {
      redisAddr := "redis:6379"
      redisPassword := "amass4OWASP"
      if redisAddr == "" || redisPassword == "" {
          l.Error("Redis address or password not set in environment variables")
          return nil
      }
      redisClient := redis.NewClient(...)
      ...
      _, err := redisClient.Ping(ctx).Result()
      if err != nil {
          l.Error("Failed to connect to Redis", "error", err)
          return nil
      }
      l.Info("Successfully connected to Redis")
      return &manager{logger: l, redis: redisClient, sessions: make(...)}
  }
  \<close>
  The Redis server is outside the program: \<open>ping addr password\<close> says whether the
  ping of the client built from that address and password succeeds. The result is the
  lines written to the logger and the manager (\<open>None\<close> for \<open>nil\<close>).
\<close>

definition NewManager :: "(string \<Rightarrow> string \<Rightarrow> bool) \<Rightarrow> logline list \<times> manager option" where
  "NewManager ping =
     (let redisAddr = ''redis:6379'';
          redisPassword = ''amass4OWASP''
      in if redisAddr = [] \<or> redisPassword = [] then
           ([LogError ''Redis address or password not set in environment variables''], None)
         else if \<not> ping redisAddr redisPassword then
           ([LogError ''Failed to connect to Redis''], None)
         else
           ([LogInfo ''Successfully connected to Redis''],
            Some \<lparr>redis = (redisAddr, redisPassword), sessions = Map.empty\<rparr>))"


section \<open>The asset graph and its repository (utils/addr.go)\<close>

text \<open>
  The graph store is used through the interface \<open>repository.Repository\<close> of the
  asset database, a library outside this repository. The model takes the three calls
  that utils/addr.go makes as the fields of a record of functions; \<open>None\<close> stands for a
  returned error. An entity has an identifier and an asset; an edge has a relation and
  its two ends. The relation types that carry a DNS record header hold its \<open>RRType\<close>.
  \<open>Key\<close> is the content key of an asset (the name of an FQDN, the text of an address).
\<close>

type_synonym time = int

datatype asset = FQDN string | IPAddress string | OtherAsset string

fun Key :: "asset \<Rightarrow> string" where
  "Key (FQDN name) = name"
| "Key (IPAddress a) = a"
| "Key (OtherAsset k) = k"

record Entity =
  ID :: string
  Asset :: asset

datatype relation =
    BasicDNSRelation int
  | PrefDNSRelation int
  | SRVDNSRelation int
  | SimpleRelation string

record Edge =
  Relation :: relation
  FromEntity :: Entity
  ToEntity :: Entity

record Repository =
  FindEntityById :: "string \<Rightarrow> Entity option"
  FindEntityByContent :: "asset \<Rightarrow> time \<Rightarrow> Entity list option"
  OutgoingEdges :: "Entity \<Rightarrow> time \<Rightarrow> string \<Rightarrow> Edge list option"

datatype addr_error = ErrExtractIP | ErrTraverseFQDN | ErrTraverseAliases

text \<open>
  \<^verbatim>\<open>
  func getAddr(db repository.Repository, ip *dbt.Entity, since time.Time) (*network.IPAddress, error) {
      if entity, err := db.FindEntityById(ip.ID); err == nil && entity != nil {
          if ip, ok := entity.Asset.(*network.IPAddress); ok {
              return ip, nil
          }
      }
      return nil, errors.New("failed to extract the IP address")
  }
  \<close>
\<close>

definition getAddr :: "Repository \<Rightarrow> Entity \<Rightarrow> time \<Rightarrow> addr_error + string" where
  "getAddr repo ip since =
     (case FindEntityById repo (ID ip) of
        Some entity \<Rightarrow>
          (case Asset entity of IPAddress a \<Rightarrow> Inr a | _ \<Rightarrow> Inl ErrExtractIP)
      | None \<Rightarrow> Inl ErrExtractIP)"

text \<open>
  \<^verbatim>\<open>
  func oneMoreName(db repository.Repository, fqdn *dbt.Entity, since time.Time) (*network.IPAddress, error) {
      if edges, err := db.OutgoingEdges(fqdn, since, "dns_record"); err == nil && len(edges) > 0 {
          for _, edge := range edges {
              if rel, ok := edge.Relation.(*relation.BasicDNSRelation); ok && (rel.Header.RRType == 1 || rel.Header.RRType == 28) {
                  return getAddr(db, edge.ToEntity, since)
              }
          }
      }
      return nil, errors.New("failed to traverse the FQDN")
  }
  \<close>
\<close>

fun oneMoreNameLoop :: "Repository \<Rightarrow> time \<Rightarrow> Edge list \<Rightarrow> addr_error + string" where
  "oneMoreNameLoop repo since [] = Inl ErrTraverseFQDN"
| "oneMoreNameLoop repo since (edge # rest) =
     (case Relation edge of
        BasicDNSRelation t \<Rightarrow>
          if t = 1 \<or> t = 28 then getAddr repo (ToEntity edge) since
          else oneMoreNameLoop repo since rest
      | _ \<Rightarrow> oneMoreNameLoop repo since rest)"

definition oneMoreName :: "Repository \<Rightarrow> Entity \<Rightarrow> time \<Rightarrow> addr_error + string" where
  "oneMoreName repo fqdn since =
     (case OutgoingEdges repo fqdn since ''dns_record'' of
        Some edges \<Rightarrow>
          if length edges > 0 then oneMoreNameLoop repo since edges else Inl ErrTraverseFQDN
      | None \<Rightarrow> Inl ErrTraverseFQDN)"

text \<open>
  \<^verbatim>\<open>
  func cnameQuery(db repository.Repository, fqdn *dbt.Entity, since time.Time) (*network.IPAddress, error) {
      set := stringset.New()
      defer set.Close()

      next := fqdn
  loop:
      for i := 0; i < 10; i++ {
          n, err := db.FindEntityById(next.ID)
          if err != nil || set.Has(n.Asset.Key()) {
              break
          }
          set.Insert(n.Asset.Key())

          if edges, err := db.OutgoingEdges(n, since, "dns_record"); err == nil && len(edges) > 0 {
              for _, edge := range edges {
                  if rel, ok := edge.Relation.(*relation.BasicDNSRelation); ok {
                      if rel.Header.RRType == 1 || rel.Header.RRType == 28 {
                          return getAddr(db, edge.ToEntity, since)
                      } else if rel.Header.RRType == 5 {
                          next = edge.ToEntity
                          continue loop
                      }
                  }
              }
          }
      }
      return nil, errors.New("failed to traverse the aliases")
  }
  \<close>
  The inner loop over the edges is \<open>cnameEdges\<close>: it says how the inner loop is left
  (by \<open>return\<close>, by \<open>continue loop\<close> with a new \<open>next\<close>, or because the edges are
  used up). \<open>cnameStep\<close> is the \<open>if\<close> statement around it. The outer loop is
  \<open>cnameLoop\<close>, with the loop counter \<open>i\<close>, the variable \<open>next\<close> and the set as
  arguments; beside the function's result it returns the value the counter \<open>i\<close> has
  when the function is left, that is the number of iterations completed before.

  The string set belongs to the library stringset, which lower-cases the element both
  in \<open>Insert\<close> and in \<open>Has\<close>: the set holds lower-cased strings and compares
  without regard to case. \<open>stringsetHas\<close> and \<open>stringsetInsert\<close> are these two
  methods.
\<close>

definition stringsetHas :: "string set \<Rightarrow> string \<Rightarrow> bool" where
  "stringsetHas s element = (ToLower element \<in> ToLower ` s)"

definition stringsetInsert :: "string \<Rightarrow> string set \<Rightarrow> string set" where
  "stringsetInsert element s = insert (ToLower element) s"

datatype alias_step = ReturnAddr Entity | FollowAlias Entity | NoRecord

fun cnameEdges :: "Edge list \<Rightarrow> alias_step" where
  "cnameEdges [] = NoRecord"
| "cnameEdges (edge # rest) =
     (case Relation edge of
        BasicDNSRelation t \<Rightarrow>
          if t = 1 \<or> t = 28 then ReturnAddr (ToEntity edge)
          else if t = 5 then FollowAlias (ToEntity edge)
          else cnameEdges rest
      | _ \<Rightarrow> cnameEdges rest)"

definition cnameStep :: "Repository \<Rightarrow> time \<Rightarrow> Entity \<Rightarrow> alias_step" where
  "cnameStep repo since n =
     (case OutgoingEdges repo n since ''dns_record'' of
        Some edges \<Rightarrow> if length edges > 0 then cnameEdges edges else NoRecord
      | None \<Rightarrow> NoRecord)"

function cnameLoop ::
  "Repository \<Rightarrow> time \<Rightarrow> nat \<Rightarrow> Entity \<Rightarrow> string set \<Rightarrow> (addr_error + string) \<times> nat" where
  "cnameLoop repo since i next visited =
     (if i < 10 then
        (case FindEntityById repo (ID next) of
           None \<Rightarrow> (Inl ErrTraverseAliases, i)
         | Some n \<Rightarrow>
             if stringsetHas visited (Key (Asset n)) then (Inl ErrTraverseAliases, i)
             else
               (case cnameStep repo since n of
                  ReturnAddr e \<Rightarrow> (getAddr repo e since, i)
                | FollowAlias e \<Rightarrow>
                    cnameLoop repo since (i + 1) e (stringsetInsert (Key (Asset n)) visited)
                | NoRecord \<Rightarrow>
                    cnameLoop repo since (i + 1) next
                      (stringsetInsert (Key (Asset n)) visited)))
      else (Inl ErrTraverseAliases, i))"
  by pat_completeness auto
termination
  by (relation "measure (\<lambda>(repo, since, i, next, visited). 10 - i)") auto

declare cnameLoop.simps [simp del]

definition cnameQuery :: "Repository \<Rightarrow> Entity \<Rightarrow> time \<Rightarrow> addr_error + string" where
  "cnameQuery repo fqdn since = fst (cnameLoop repo since 0 fqdn {})"

text \<open>
  \<^verbatim>\<open>
  func NamesToAddrs(db *assetdb.AssetDB, since time.Time, names ...string) ([]*NameAddrPair, error) {
      var fqdns []*dbt.Entity
      for _, name := range names {
          if ents, err := db.Repo.FindEntityByContent(&domain.FQDN{Name: name}, since); err == nil && len(ents) == 1 {
              fqdns = append(fqdns, ents[0])
          }
      }

      var results []*NameAddrPair
  loop:
      for _, fqdn := range fqdns {
          if edges, err := db.Repo.OutgoingEdges(fqdn, since, "dns_record"); err == nil && len(edges) > 0 {
              for _, edge := range edges {
                  switch v := edge.Relation.(type) {
                  case *relation.BasicDNSRelation:
                      if v.Header.RRType == 1 || v.Header.RRType == 28 {
                          if ip, err := getAddr(db.Repo, edge.ToEntity, since); err == nil {
                              results = append(results, &NameAddrPair{FQDN: fqdn.Asset.(*domain.FQDN), Addr: ip})
                              continue loop
                          }
                      } else if v.Header.RRType == 5 {
                          if ip, err := cnameQuery(db.Repo, edge.ToEntity, since); err == nil {
                              results = append(...)
                              continue loop
                          }
                      }
                  case *relation.PrefDNSRelation:
                      if v.Header.RRType == 2 || v.Header.RRType == 15 {
                          if ip, err := oneMoreName(db.Repo, edge.ToEntity, since); err == nil {
                              results = append(...)
                              continue loop
                          }
                      }
                  case *relation.SRVDNSRelation:
                      if v.Header.RRType == 33 {
                          if ip, err := oneMoreName(db.Repo, edge.ToEntity, since); err == nil {
                              results = append(...)
                              continue loop
                          }
                      }
                  }
              }
          }
      }
      return results, nil
  }
  \<close>
  \<open>findFQDNs\<close> is the first loop. \<open>edgesLoop\<close> is the loop over the edges of one name:
  it gives the address of the first edge that resolves, upon which the source appends
  a pair and goes on with the next name, or \<open>None\<close> when the edges are used up.
  \<open>resolveFQDN\<close> is the \<open>if\<close> statement around it and \<open>fqdnsLoop\<close> the loop over the
  names found. A pair is the name of the FQDN and the address. The type assertion
  \<^verbatim>\<open>fqdn.Asset.(*domain.FQDN)\<close> has no \<open>ok\<close> result: it panics on an entity whose
  asset is not an FQDN.
\<close>

type_synonym NameAddrPair = "string \<times> string"

fun findFQDNs :: "Repository \<Rightarrow> time \<Rightarrow> string list \<Rightarrow> Entity list" where
  "findFQDNs repo since [] = []"
| "findFQDNs repo since (name # names) =
     (case FindEntityByContent repo (FQDN name) since of
        Some [e] \<Rightarrow> e # findFQDNs repo since names
      | _ \<Rightarrow> findFQDNs repo since names)"

fun edgesLoop :: "Repository \<Rightarrow> time \<Rightarrow> Edge list \<Rightarrow> string option" where
  "edgesLoop repo since [] = None"
| "edgesLoop repo since (edge # rest) =
     (case Relation edge of
        BasicDNSRelation t \<Rightarrow>
          if t = 1 \<or> t = 28 then
            (case getAddr repo (ToEntity edge) since of
               Inr ip \<Rightarrow> Some ip
             | Inl err \<Rightarrow> edgesLoop repo since rest)
          else if t = 5 then
            (case cnameQuery repo (ToEntity edge) since of
               Inr ip \<Rightarrow> Some ip
             | Inl err \<Rightarrow> edgesLoop repo since rest)
          else edgesLoop repo since rest
      | PrefDNSRelation t \<Rightarrow>
          if t = 2 \<or> t = 15 then
            (case oneMoreName repo (ToEntity edge) since of
               Inr ip \<Rightarrow> Some ip
             | Inl err \<Rightarrow> edgesLoop repo since rest)
          else edgesLoop repo since rest
      | SRVDNSRelation t \<Rightarrow>
          if t = 33 then
            (case oneMoreName repo (ToEntity edge) since of
               Inr ip \<Rightarrow> Some ip
             | Inl err \<Rightarrow> edgesLoop repo since rest)
          else edgesLoop repo since rest
      | SimpleRelation name \<Rightarrow> edgesLoop repo since rest)"

definition resolveFQDN :: "Repository \<Rightarrow> time \<Rightarrow> Entity \<Rightarrow> string option" where
  "resolveFQDN repo since fqdn =
     (case OutgoingEdges repo fqdn since ''dns_record'' of
        Some edges \<Rightarrow> if length edges > 0 then edgesLoop repo since edges else None
      | None \<Rightarrow> None)"

fun fqdnsLoop ::
  "Repository \<Rightarrow> time \<Rightarrow> Entity list \<Rightarrow> NameAddrPair list \<Rightarrow> panic + NameAddrPair list" where
  "fqdnsLoop repo since [] results = Inr results"
| "fqdnsLoop repo since (fqdn # rest) results =
     (case resolveFQDN repo since fqdn of
        Some ip \<Rightarrow>
          (case Asset fqdn of
             FQDN name \<Rightarrow> fqdnsLoop repo since rest (results @ [(name, ip)])
           | _ \<Rightarrow> Inl TypeAssertion)
      | None \<Rightarrow> fqdnsLoop repo since rest results)"

definition NamesToAddrs ::
  "Repository \<Rightarrow> time \<Rightarrow> string list \<Rightarrow> panic + NameAddrPair list" where
  "NamesToAddrs repo since names = fqdnsLoop repo since (findFQDNs repo since names) []"

text \<open>An address record, as \<open>oneMoreName\<close> tests it.\<close>

definition isAddressRecord :: "Edge \<Rightarrow> bool" where
  "isAddressRecord edge =
     (case Relation edge of BasicDNSRelation t \<Rightarrow> t = 1 \<or> t = 28 | _ \<Rightarrow> False)"

text \<open>
  A repository held in memory, for the examples: the entities and the edges are lists,
  an entity is found by its identifier or by its asset, and the edges of an entity are
  those that leave it.
\<close>

definition memRepo :: "Entity list \<Rightarrow> Edge list \<Rightarrow> Repository" where
  "memRepo ents edges =
     \<lparr>FindEntityById = (\<lambda>i. List.find (\<lambda>e. ID e = i) ents),
      FindEntityByContent = (\<lambda>a since. Some (filter (\<lambda>e. Asset e = a) ents)),
      OutgoingEdges = (\<lambda>e since label.
         if label = ''dns_record'' then Some (filter (\<lambda>d. ID (FromEntity d) = ID e) edges)
         else Some [])\<rparr>"

definition fq :: "string \<Rightarrow> Entity" where
  "fq name = \<lparr>ID = name, Asset = FQDN name\<rparr>"

definition ipEnt :: "string \<Rightarrow> Entity" where
  "ipEnt a = \<lparr>ID = a, Asset = IPAddress a\<rparr>"

definition dnsEdge :: "relation \<Rightarrow> Entity \<Rightarrow> Entity \<Rightarrow> Edge" where
  "dnsEdge r a b = \<lparr>Relation = r, FromEntity = a, ToEntity = b\<rparr>"

text \<open>The alias cycle \<open>a \<rightarrow> b \<rightarrow> a\<close>.\<close>

definition cycleRepo :: Repository where
  "cycleRepo =
     memRepo [fq ''a'', fq ''b'']
       [dnsEdge (BasicDNSRelation 5) (fq ''a'') (fq ''b''),
        dnsEdge (BasicDNSRelation 5) (fq ''b'') (fq ''a'')]"

text \<open>
  A zone with an address record, an alias chain of two links that ends in an AAAA
  record, a name with a name-server record held in a basic relation followed by a mail
  exchanger, a service record and the alias cycle.
\<close>

definition zoneRepo :: Repository where
  "zoneRepo =
     memRepo
       [fq ''www.example.com'', fq ''mail.example.com'', fq ''mx.example.net'',
        fq ''host.example.net'', fq ''example.com'', fq ''mx1.example.com'',
        fq ''_sip._tcp.example.com'', fq ''a'', fq ''b'',
        ipEnt ''192.0.2.1'', ipEnt ''2001:db8::2'', ipEnt ''192.0.2.3'']
       [dnsEdge (BasicDNSRelation 1) (fq ''www.example.com'') (ipEnt ''192.0.2.1''),
        dnsEdge (BasicDNSRelation 5) (fq ''mail.example.com'') (fq ''mx.example.net''),
        dnsEdge (BasicDNSRelation 5) (fq ''mx.example.net'') (fq ''host.example.net''),
        dnsEdge (BasicDNSRelation 28) (fq ''host.example.net'') (ipEnt ''2001:db8::2''),
        dnsEdge (BasicDNSRelation 2) (fq ''example.com'') (fq ''ns1.example.net''),
        dnsEdge (PrefDNSRelation 15) (fq ''example.com'') (fq ''mx1.example.com''),
        dnsEdge (BasicDNSRelation 16) (fq ''mx1.example.com'') (fq ''example.com''),
        dnsEdge (BasicDNSRelation 1) (fq ''mx1.example.com'') (ipEnt ''192.0.2.3''),
        dnsEdge (SRVDNSRelation 33) (fq ''_sip._tcp.example.com'') (fq ''www.example.com''),
        dnsEdge (BasicDNSRelation 5) (fq ''a'') (fq ''b''),
        dnsEdge (BasicDNSRelation 5) (fq ''b'') (fq ''a'')]"

text \<open>
  A name whose only record is a name-server record held in a basic relation; the name
  server has an address record.
\<close>

definition nsRepo :: Repository where
  "nsRepo =
     memRepo [fq ''example.com'', fq ''ns1.example.net'', ipEnt ''192.0.2.53'']
       [dnsEdge (BasicDNSRelation 2) (fq ''example.com'') (fq ''ns1.example.net''),
        dnsEdge (BasicDNSRelation 1) (fq ''ns1.example.net'') (ipEnt ''192.0.2.53'')]"

text \<open>An alias from a name to the same name in another case, which has an address.\<close>

definition caseRepo :: Repository where
  "caseRepo =
     memRepo [fq ''Host.example'', fq ''host.example'', ipEnt ''192.0.2.7'']
       [dnsEdge (BasicDNSRelation 5) (fq ''Host.example'') (fq ''host.example''),
        dnsEdge (BasicDNSRelation 1) (fq ''host.example'') (ipEnt ''192.0.2.7'')]"

definition zoneNames :: "string list" where
  "zoneNames =
     [''www.example.com'', ''mail.example.com'', ''example.com'',
      ''_sip._tcp.example.com'', ''a'', ''missing.example.com'']"

section \<open>Cancelling a session (engine/sessions/manager.go)\<close>

text \<open>
  \<^verbatim>\<open>
  func (r *manager) GetSession(id uuid.UUID) et.Session {
      ...
      if s, found := r.sessions[id]; found {
          return s
      }
      return nil
  }

  func (r *manager) CancelSession(id uuid.UUID) {
      s := r.GetSession(id)
      if s == nil {
          return
      }
      s.Kill("manager.CancelSession")
      s.Delete()

      t := time.NewTicker(500 * time.Millisecond)
      defer t.Stop()

      for range t.C {
          ss := s.Stats()
          ss.Lock()
          if ss.WorkItemsTotal == ss.WorkItemsCompleted {
              ss.Unlock()
              break
          }
          ss.Unlock()
      }

      r.Lock()
      defer r.Unlock()

      if c := r.sessions[id].Cache(); c != nil {
          c.Close()
      }
      if dir := r.sessions[id].TmpDir(); dir != "" {
          os.RemoveAll(dir)
      }
      if db := s.DB(); db != nil {
          if err := db.Close(); err != nil { ... }
      }
      if set := s.EventSet(); set != nil {
          set.Close()
      }
      delete(r.sessions, id)
  }
  \<close>
  The world of the call is the manager with its table of sessions and the directories
  that exist. The table holds the session objects themselves: \<open>s\<close> and
  \<open>r.sessions[id]\<close> are the same object until the entry is deleted.

  The counters behind \<open>s.Stats()\<close> are written by the handlers while the loop waits.
  The model takes the values they hold at the successive ticks of the ticker as the list
  \<open>ticks\<close>: at each tick the session's statistics are what the handlers made them,
  then the loop reads them. \<open>pollLoop\<close> answers whether the loop was left by
  \<open>break\<close> within these ticks. The call has three outcomes: it is still blocked in
  the loop after the given ticks (with the world as it is then), it has returned (with
  the world and the session object as it left them), or it has panicked.

  The \<open>caller\<close> argument of \<open>Kill\<close> in this version of the manager is a label
  and has no part in \<open>Kill\<close> above. \<open>os.RemoveAll\<close> removes the path and
  everything below it.
\<close>

record world =
  mgr :: manager
  dirs :: "string set"

datatype outcome = Blocked world | Returned world "Session option" | Panicked panic

definition GetSession :: "manager \<Rightarrow> nat \<Rightarrow> Session option" where
  "GetSession r i = sessions r i"

fun pollLoop :: "Session \<Rightarrow> SessionStats list \<Rightarrow> bool \<times> Session" where
  "pollLoop s [] = (False, s)"
| "pollLoop s (upd # rest) =
     (let s' = s\<lparr>stats := upd\<rparr>;
          ss = stats s'
      in if WorkItemsTotal ss = WorkItemsCompleted ss then (True, s')
         else pollLoop s' rest)"

definition closeHandle :: "handle option \<Rightarrow> handle option" where
  "closeHandle h = (case h of Some x \<Rightarrow> Some Released | None \<Rightarrow> None)"

definition underDir :: "string \<Rightarrow> string \<Rightarrow> bool" where
  "underDir dir p = (p = dir \<or> take (length dir + 1) p = dir @ ''/'')"

definition RemoveAll :: "string \<Rightarrow> string set \<Rightarrow> string set" where
  "RemoveAll dir ds = Set.filter (\<lambda>p. \<not> underDir dir p) ds"

text \<open>
  Modelled from the spec: \<open>Session.Delete\<close>. The interface in
  engine/types/sessions.go declares it and the manager calls it, in \<open>CancelSession\<close>
  and in \<open>Shutdown\<close>; its body is not among the sources. The spec: "Terminated
  (entered on Delete/manager cleanup): cache closed, temp directory removed, graph store
  connection closed, session removed from the manager's registry". The first three
  are the session's own resources and are what \<open>Delete\<close> does here; the registry
  belongs to the manager, which removes the entry itself
  (\<^verbatim>\<open>delete(r.sessions, id)\<close>) after it has called \<open>Delete\<close>. In \<open>Shutdown\<close>
  the call of \<open>Delete\<close> is the only step that releases anything. \<open>Delete\<close>
  returns an error, which its callers drop.
\<close>

definition Delete :: "Session \<Rightarrow> string set \<Rightarrow> Session \<times> string set" where
  "Delete s ds =
     (let s1 = s\<lparr>c := closeHandle (c s)\<rparr>;
          ds1 = (if tmpdir s1 \<noteq> [] then RemoveAll (tmpdir s1) ds else ds);
          s2 = s1\<lparr>db := closeHandle (db s1)\<rparr>
      in (s2, ds1))"

text \<open>The part of \<open>CancelSession\<close> after the loop.\<close>

definition releaseSession :: "world \<Rightarrow> nat \<Rightarrow> outcome" where
  "releaseSession w i =
     (case sessions (mgr w) i of
        None \<Rightarrow> Panicked NilDereference
      | Some s \<Rightarrow>
          let s1 = s\<lparr>c := closeHandle (c s)\<rparr>;
              ds = (if tmpdir s1 \<noteq> [] then RemoveAll (tmpdir s1) (dirs w) else dirs w);
              s2 = s1\<lparr>db := closeHandle (db s1)\<rparr>;
              s3 = s2\<lparr>eventset := closeHandle (eventset s2)\<rparr>
          in Returned (w\<lparr>mgr := (mgr w)\<lparr>sessions := (sessions (mgr w))(i := None)\<rparr>,
                        dirs := ds\<rparr>) (Some s3))"

definition CancelSession :: "world \<Rightarrow> nat \<Rightarrow> SessionStats list \<Rightarrow> outcome" where
  "CancelSession w i ticks =
     (case GetSession (mgr w) i of
        None \<Rightarrow> Returned w None
      | Some s \<Rightarrow>
          (case Kill s of
             Inl p \<Rightarrow> Panicked p
           | Inr s1 \<Rightarrow>
               let (s2, ds2) = Delete s1 (dirs w);
                   (left, s3) = pollLoop s2 ticks;
                   w1 = w\<lparr>mgr := (mgr w)\<lparr>sessions := (sessions (mgr w))(i \<mapsto> s3)\<rparr>,
                          dirs := ds2\<rparr>
               in if left then releaseSession w1 i else Blocked w1))"

text \<open>An example: one session with work in flight, and the ticks of a drain.\<close>

definition exampleSession :: Session where
  "exampleSession =
     \<lparr>sid = 7, c = Some Live, db = Some Live, eventset = None, tmpdir = ''/tmp/amass7'',
      stats = \<lparr>WorkItemsCompleted = 1, WorkItemsTotal = 3\<rparr>, done_ch = Open\<rparr>"

definition exampleWorld :: world where
  "exampleWorld =
     \<lparr>mgr = \<lparr>redis = (''redis:6379'', ''amass4OWASP''), sessions = [7 \<mapsto> exampleSession]\<rparr>,
      dirs = {''/tmp'', ''/tmp/amass7'', ''/tmp/amass7/db'', ''/tmp/amass77''}\<rparr>"

definition busyTicks :: "SessionStats list" where
  "busyTicks =
     [\<lparr>WorkItemsCompleted = 1, WorkItemsTotal = 3\<rparr>,
      \<lparr>WorkItemsCompleted = 2, WorkItemsTotal = 4\<rparr>,
      \<lparr>WorkItemsCompleted = 3, WorkItemsTotal = 4\<rparr>]"

definition drainedTicks :: "SessionStats list" where
  "drainedTicks = busyTicks @ [\<lparr>WorkItemsCompleted = 4, WorkItemsTotal = 4\<rparr>]"

section \<open>The LetItGo plugin (engine/plugins/scrape)\<close>

text \<open>
  The sources hold several versions of the plugin. Three are modelled: the file
  engine/plugins/scrape/letitgo.go (\<open>check\<close>, \<open>query\<close>), the version whose \<open>check\<close>
  consults the TTL of the asset and whose \<open>query\<close> reduces the response to registered
  domains (\<open>check_gated\<close>, \<open>query_gated\<close>), and the version that dispatches the
  domains it finds as new events (\<open>Run\<close>).

  The event carries its name, its entity and its session (\<open>None\<close> for \<open>nil\<close>). The
  Autodiscover service is outside the program: \<open>post name\<close> is what posting the request
  for \<open>name\<close>, reading the answer and decoding it gives, an error at one of these steps
  or the list of the \<open>Domain\<close> elements of the response.
\<close>

record Event =
  evName :: string
  evEntity :: Entity
  evSession :: "nat option"

datatype soap_result = PostFailed | ReadFailed | ParseFailed | Domains "string list"

datatype query_error = ErrInvalidEvent | ErrPost | ErrRead | ErrParse | ErrNoValidDomains

datatype check_error = ErrExtractFQDN | ErrTTLStartTime

text \<open>
  The state the handlers work on: the number of requests posted to the service, the
  provenance properties that mark an asset as monitored by a source (entity, source,
  time stamp), the clock, the calls of \<open>process\<close>, and the messages that the
  plugin's logger \<open>l.log\<close> has written at level Error.
\<close>

record pstate =
  requests :: nat
  props :: "(string \<times> string \<times> time) list"
  clock :: time
  processed :: "Entity list list"
  errlog :: "string list"

definition logError :: "pstate \<Rightarrow> string \<Rightarrow> pstate" where
  "logError st msg = st\<lparr>errlog := errlog st @ [msg]\<rparr>"

text \<open>
  Modelled from the spec: \<open>support.AssetMonitoredWithinTTL\<close> and
  \<open>support.MarkAssetMonitored\<close>, of package engine/plugins/support, which is not among
  the sources. The spec: "\<open>AssetMonitoredWithinTTL(session, asset, source, since)\<close> is
  true iff a property recorded by \<open>source\<close> on \<open>asset\<close> has a timestamp at or after
  \<open>since\<close>"; "\<open>MarkAssetMonitored(session, asset, source)\<close> writes a fresh provenance
  property stamped with the current time".
\<close>

definition AssetMonitoredWithinTTL :: "pstate \<Rightarrow> Entity \<Rightarrow> string \<Rightarrow> time \<Rightarrow> bool" where
  "AssetMonitoredWithinTTL st asset source since =
     list_ex (\<lambda>(a, s, t). a = ID asset \<and> s = source \<and> since \<le> t) (props st)"

definition MarkAssetMonitored :: "pstate \<Rightarrow> Entity \<Rightarrow> string \<Rightarrow> pstate" where
  "MarkAssetMonitored st asset source =
     st\<lparr>props := props st @ [(ID asset, source, clock st)]\<rparr>"

text \<open>\<open>process\<close> hands the entities to \<open>support.ProcessFQDNsWithSource\<close>; the model
  records the call.\<close>

definition process :: "pstate \<Rightarrow> Entity list \<Rightarrow> pstate" where
  "process st assets = st\<lparr>processed := processed st @ [assets]\<rparr>"

text \<open>
  The string set \<open>subs\<close> (package stringset) and the map \<open>bareDomains\<close> are modelled as
  lists without duplicates, in the order of insertion. \<open>subs.Slice()\<close> ranges over a
  Go map, so the order in which it gives the elements back is not specified: what it
  returns is \<open>slice subs\<close>, where the parameter \<open>slice\<close> stands for the order that the
  run time chooses.
\<close>

definition setInsert :: "string \<Rightarrow> string list \<Rightarrow> string list" where
  "setInsert x xs = (if x \<in> set xs then xs else xs @ [x])"

subsection \<open>engine/plugins/scrape/letitgo.go\<close>

text \<open>
  \<^verbatim>\<open>
  func (l *letitgo) query(e *et.Event, name string, source *et.Source) ([]*dbt.Entity, error) {
      if e == nil || e.Session == nil {
          l.log.Info("Invalid Event Or Session")
          return nil, fmt.Errorf("invalid event or session")
      }
      l.rlimit.Take()
      subs := stringset.New()
      defer subs.Close()
      soapEnvelope := ...
      resp, err := postSOAP(ctx, "https://autodiscover-s.outlook.com/...", soapEnvelope)
      if err != nil {
          return nil, err
      }
      defer resp.Body.Close()
      responseBody, err := io.ReadAll(resp.Body)
      if err != nil {
          return nil, err
      }
      ...
      if err := xml.NewDecoder(bytes.NewReader(responseBody)).Decode(&envelope); err != nil {
          return nil, err
      }
      for _, domain := range envelope.Body.GetFederationInformationResponseMessage.Response.Domains.Domain {
          subs.Insert(strings.ToLower(domain))
      }
      if subs.Len() == 0 {
          return nil, fmt.Errorf("no valid domains found")
      }
      return l.store(e, subs.Slice(), l.source), nil
  }
  \<close>
  \<open>store\<close> returns the entities that \<open>support.StoreFQDNsWithSource\<close> returns for the
  names, after linking each of them to the event's entity; it is the parameter
  \<open>store\<close>, and its writes to the graph have no part in what \<open>query\<close> returns.
\<close>

fun insertLower :: "string list \<Rightarrow> string list \<Rightarrow> string list" where
  "insertLower [] subs = subs"
| "insertLower (d # ds) subs = insertLower ds (setInsert (ToLower d) subs)"

definition query ::
  "pstate \<Rightarrow> Event option \<Rightarrow> string \<Rightarrow> (string \<Rightarrow> soap_result) \<Rightarrow>
   (string list \<Rightarrow> string list) \<Rightarrow> (string list \<Rightarrow> Entity list) \<Rightarrow>
   (query_error + Entity list) \<times> pstate" where
  "query st e name post slice store =
     (case e of
        None \<Rightarrow> (Inl ErrInvalidEvent, st)
      | Some ev \<Rightarrow>
          if evSession ev = None then (Inl ErrInvalidEvent, st)
          else
            let st1 = st\<lparr>requests := requests st + 1\<rparr>
            in (case post name of
                  PostFailed \<Rightarrow> (Inl ErrPost, st1)
                | ReadFailed \<Rightarrow> (Inl ErrRead, st1)
                | ParseFailed \<Rightarrow> (Inl ErrParse, st1)
                | Domains ds \<Rightarrow>
                    let subs = insertLower ds []
                    in if length subs = 0 then (Inl ErrNoValidDomains, st1)
                       else (Inr (store (slice subs)), st1)))"

text \<open>
  \<^verbatim>\<open>
  func (l *letitgo) check(e *et.Event) error {
      entities, err := l.query(e, e.Entity.Asset.(*domain.FQDN).Name, l.source)
      if err != nil {
          l.log.Error("Query failed", "error", err)
          return nil
      }
      support.MarkAssetMonitored(e.Session, e.Entity, l.source)

      if len(entities) > 0 {
          l.process(e, entities, l.source)
      }
      return nil
  }
  \<close>
  The result is a panic, or the error returned (\<open>None\<close> for \<open>nil\<close>).
\<close>

definition sourceName :: string where
  "sourceName = ''LetItGo''"

definition check ::
  "pstate \<Rightarrow> Event \<Rightarrow> (string \<Rightarrow> soap_result) \<Rightarrow> (string list \<Rightarrow> string list) \<Rightarrow>
   (string list \<Rightarrow> Entity list) \<Rightarrow> (panic + check_error option) \<times> pstate" where
  "check st e post slice store =
     (case Asset (evEntity e) of
        FQDN name \<Rightarrow>
          (case query st (Some e) name post slice store of
             (Inl err, st1) \<Rightarrow> (Inr None, logError st1 ''Query failed'')
           | (Inr entities, st1) \<Rightarrow>
               let st2 = MarkAssetMonitored st1 (evEntity e) sourceName
               in (Inr None, if length entities > 0 then process st2 entities else st2))
      | _ \<Rightarrow> (Inl TypeAssertion, st))"

subsection \<open>The version that checks the TTL\<close>

text \<open>
  \<^verbatim>\<open>
  func (l *letitgo) query(e *et.Event, name string, source *et.Source) ([]*dbt.Entity, error) {
      if e == nil || e.Session == nil {
          l.log.Info("Invalid Event Or Session")
          return nil, fmt.Errorf("invalid event or session")
      }
      l.rlimit.Take()
      subs := stringset.New()
      defer subs.Close()
      ...
      resp, err := postSOAP(context.TODO(), url, soapEnvelope)
      if err != nil {
          return nil, err
      }
      defer resp.Body.Close()

      var parsed Response
      err = xml.NewDecoder(resp.Body).Decode(&parsed)
      if err != nil {
          return nil, fmt.Errorf("failed to parse XML: %v", err)
      }

      for _, d := range parsed.Body.GetFederationInformationResponseMessage.Response.Domains.Domain {
          if strings.HasSuffix(d, "onmicrosoft.com") {
              continue
          }
          bareDomain, err := publicsuffix.EffectiveTLDPlusOne(d)
          if err == nil {
              l.log.Info(bareDomain)
              subs.Insert(strings.ToLower(bareDomain))
          }
      }

      if subs.Len() == 0 {
          return nil, fmt.Errorf("no valid domains found")
      }
      return l.store(e, subs.Slice(), l.source), nil
  }
  \<close>
  \<open>publicsuffix.EffectiveTLDPlusOne\<close> belongs to a library; it is the parameter
  \<open>etld1\<close>, \<open>None\<close> standing for its error. The body is read by the decoder, so a
  failure to read it is a failure to parse. \<open>store\<close> differs between the two copies of
  this version (one creates the assets itself; the other calls
  \<open>support.StoreFQDNsWithSource\<close>); it is the parameter \<open>store\<close>, applied to
  \<open>subs.Slice()\<close>.
\<close>

fun bareDomains :: "(string \<Rightarrow> string option) \<Rightarrow> string list \<Rightarrow> string list \<Rightarrow> string list" where
  "bareDomains etld1 [] subs = subs"
| "bareDomains etld1 (d # ds) subs =
     (if HasSuffix d ''onmicrosoft.com'' then bareDomains etld1 ds subs
      else (case etld1 d of
              Some bareDomain \<Rightarrow> bareDomains etld1 ds (setInsert (ToLower bareDomain) subs)
            | None \<Rightarrow> bareDomains etld1 ds subs))"

definition query_gated ::
  "pstate \<Rightarrow> Event option \<Rightarrow> string \<Rightarrow> (string \<Rightarrow> soap_result) \<Rightarrow>
   (string \<Rightarrow> string option) \<Rightarrow> (string list \<Rightarrow> string list) \<Rightarrow>
   (string list \<Rightarrow> Entity list) \<Rightarrow> (query_error + Entity list) \<times> pstate" where
  "query_gated st e name post etld1 slice store =
     (case e of
        None \<Rightarrow> (Inl ErrInvalidEvent, st)
      | Some ev \<Rightarrow>
          if evSession ev = None then (Inl ErrInvalidEvent, st)
          else
            let st1 = st\<lparr>requests := requests st + 1\<rparr>
            in (case post name of
                  PostFailed \<Rightarrow> (Inl ErrPost, st1)
                | ReadFailed \<Rightarrow> (Inl ErrParse, st1)
                | ParseFailed \<Rightarrow> (Inl ErrParse, st1)
                | Domains ds \<Rightarrow>
                    let subs = bareDomains etld1 ds []
                    in if length subs = 0 then (Inl ErrNoValidDomains, st1)
                       else (Inr (store (slice subs)), st1)))"

text \<open>
  \<^verbatim>\<open>
  func (l *letitgo) check(e *et.Event) error {
      fqdn, ok := e.Entity.Asset.(*domain.FQDN)
      if !ok {
          return errors.New("failed to extract the FQDN asset")
      }

      if a, conf := e.Session.Scope().IsAssetInScope(fqdn, 0); conf == 0 || a == nil {
          return nil
      } else if f, ok := a.(*domain.FQDN); !ok || f == nil || !strings.EqualFold(fqdn.Name, f.Name) {
          return nil
      }

      since, err := support.TTLStartTime(e.Session.Config(), string(oam.FQDN), string(oam.FQDN), l.name)
      if err != nil {
          return err
      }

      var names []*dbt.Entity
      if support.AssetMonitoredWithinTTL(e.Session, e.Entity, l.source, since) {
          names = append(names, l.lookup(e, fqdn.Name, since)...)
      } else {
          entities, err := l.query(e, fqdn.Name, l.source)
          if err != nil {
              l.log.Error("Query failed", "error", err)
              return nil
          }
          names = append(names, entities...)
          support.MarkAssetMonitored(e.Session, e.Entity, l.source)
      }

      if len(names) > 0 {
          l.process(e, names, l.source)
      }
      return nil
  }
  \<close>
  The scope, the configuration and the cache of found assets belong to packages that
  are not among the sources; they are parameters: \<open>inScope name\<close> is the pair that
  \<open>IsAssetInScope\<close> returns for the FQDN (the matched asset, \<open>None\<close> for \<open>nil\<close>, and
  the confidence), \<open>ttlStart\<close> is the result of \<open>support.TTLStartTime\<close> (\<open>None\<close> for
  its error), and \<open>lookup name since\<close> is what \<open>support.SourceToAssetsWithinTTL\<close>
  returns. \<open>strings.EqualFold\<close> is equality of the lower-cased ASCII strings.
\<close>

definition EqualFold :: "string \<Rightarrow> string \<Rightarrow> bool" where
  "EqualFold a b = (ToLower a = ToLower b)"

definition check_gated ::
  "pstate \<Rightarrow> Event \<Rightarrow> (string \<Rightarrow> asset option \<times> int) \<Rightarrow> time option \<Rightarrow>
   (string \<Rightarrow> time \<Rightarrow> Entity list) \<Rightarrow> (string \<Rightarrow> soap_result) \<Rightarrow>
   (string \<Rightarrow> string option) \<Rightarrow> (string list \<Rightarrow> string list) \<Rightarrow>
   (string list \<Rightarrow> Entity list) \<Rightarrow> (panic + check_error option) \<times> pstate" where
  "check_gated st e inScope ttlStart lookup post etld1 slice store =
     (case Asset (evEntity e) of
        FQDN fqdn \<Rightarrow>
          if evSession e = None then (Inl NilDereference, st)
          else
            (case inScope fqdn of
               (a, conf) \<Rightarrow>
                 if conf = 0 \<or> a = None then (Inr None, st)
                 else if (case a of Some (FQDN f) \<Rightarrow> \<not> EqualFold fqdn f | _ \<Rightarrow> True)
                 then (Inr None, st)
                 else
                   (case ttlStart of
                      None \<Rightarrow> (Inr (Some ErrTTLStartTime), st)
                    | Some since \<Rightarrow>
                        if AssetMonitoredWithinTTL st (evEntity e) sourceName since then
                          let names = lookup fqdn since
                          in (Inr None, if length names > 0 then process st names else st)
                        else
                          (case query_gated st (Some e) fqdn post etld1 slice store of
                             (Inl err, st1) \<Rightarrow> (Inr None, logError st1 ''Query failed'')
                           | (Inr entities, st1) \<Rightarrow>
                               let st2 = MarkAssetMonitored st1 (evEntity e) sourceName
                               in (Inr None,
                                   if length entities > 0 then process st2 entities
                                   else st2))))
      | _ \<Rightarrow> (Inr (Some ErrExtractFQDN), st))"

subsection \<open>The version that dispatches new events\<close>

text \<open>
  \<^verbatim>\<open>
  func (l *letitgo) Run(ctx context.Context, e *et.Event) error {
      l.rlimit.Take()

      bareDomains := make(map[string]bool)
      retry := true
      for retry {
          ...
          resp, err := postSOAP(ctx, url, soapEnvelope)
          if err != nil {
              return err
          }
          var parsed Response
          err = xml.NewDecoder(resp.Body).Decode(&parsed)
          resp.Body.Close()
          if err != nil {
              return fmt.Errorf("failed to parse XML: %v", err)
          }
          for _, d := range parsed.Body.GetFederationInformationResponseMessage.Response.Domains.Domain {
              if strings.HasSuffix(d, "onmicrosoft.com") {
                  continue
              }
              bareDomain, err := publicsuffix.EffectiveTLDPlusOne(d)
              if err == nil {
                  bareDomains[strings.ToLower(bareDomain)] = true
              }
          }
          retry = false
      }

      for bareDomain := range bareDomains {
          if _, conf := e.Session.Scope().IsAssetInScope(&oamdomain.FQDN{Name: bareDomain}, 0); conf > 0 {
              entity, err := e.Session.Cache().CreateAsset(&oamdomain.FQDN{Name: bareDomain})
              if err == nil && entity != nil {
                  newEvent := &et.Event{
                      Name:       bareDomain,
                      Entity:     entity,
                      Dispatcher: e.Dispatcher,
                      Session:    e.Session,
                  }
                  if err := newEvent.Dispatcher.DispatchEvent(newEvent); err != nil {
                      return err
                  }
              }
          }
      }
      return nil
  }
  \<close>
  The first loop runs once and fills the map as \<open>bareDomains\<close> above fills the set.
  The second loop is \<open>dispatchLoop\<close>; the \<open>query\<close> of one more version of the file
  runs the same loop over its map (and ends in a call that names a variable the
  function does not declare). The scope, the cache and the dispatcher are parameters:
  \<open>conf d\<close> is the confidence that \<open>IsAssetInScope\<close> returns for the FQDN \<open>d\<close>,
  \<open>createAsset d\<close> the entity that \<open>CreateAsset\<close> returns (\<open>None\<close> for an error or
  \<open>nil\<close>), \<open>dispatchEvent ev\<close> the error of \<open>DispatchEvent\<close> (\<open>None\<close> for \<open>nil\<close>).
  The effects recorded are the names for which \<open>CreateAsset\<close> was called and the
  events given to \<open>DispatchEvent\<close>, both in order.
\<close>

record effects =
  createAssetCalls :: "string list"
  dispatched :: "Event list"

datatype run_error = RunPost | RunParse | RunDispatch string

fun dispatchLoop ::
  "Event \<Rightarrow> (string \<Rightarrow> int) \<Rightarrow> (string \<Rightarrow> Entity option) \<Rightarrow> (Event \<Rightarrow> string option) \<Rightarrow>
   string list \<Rightarrow> effects \<Rightarrow> run_error option \<times> effects" where
  "dispatchLoop e conf createAsset dispatchEvent [] fx = (None, fx)"
| "dispatchLoop e conf createAsset dispatchEvent (bareDomain # rest) fx =
     (if conf bareDomain > 0 then
        let fx1 = fx\<lparr>createAssetCalls := createAssetCalls fx @ [bareDomain]\<rparr>
        in (case createAsset bareDomain of
              Some entity \<Rightarrow>
                let newEvent = \<lparr>evName = bareDomain, evEntity = entity,
                                evSession = evSession e\<rparr>;
                    fx2 = fx1\<lparr>dispatched := dispatched fx1 @ [newEvent]\<rparr>
                in (case dispatchEvent newEvent of
                      Some err \<Rightarrow> (Some (RunDispatch err), fx2)
                    | None \<Rightarrow> dispatchLoop e conf createAsset dispatchEvent rest fx2)
            | None \<Rightarrow> dispatchLoop e conf createAsset dispatchEvent rest fx1)
      else dispatchLoop e conf createAsset dispatchEvent rest fx)"

definition Run ::
  "Event \<Rightarrow> (string \<Rightarrow> soap_result) \<Rightarrow> (string \<Rightarrow> string option) \<Rightarrow> (string \<Rightarrow> int) \<Rightarrow>
   (string \<Rightarrow> Entity option) \<Rightarrow> (Event \<Rightarrow> string option) \<Rightarrow> run_error option \<times> effects" where
  "Run e post etld1 conf createAsset dispatchEvent =
     (let fx0 = \<lparr>createAssetCalls = [], dispatched = []\<rparr>
      in case post (evName e) of
           PostFailed \<Rightarrow> (Some RunPost, fx0)
         | ReadFailed \<Rightarrow> (Some RunParse, fx0)
         | ParseFailed \<Rightarrow> (Some RunParse, fx0)
         | Domains ds \<Rightarrow>
             dispatchLoop e conf createAsset dispatchEvent (bareDomains etld1 ds []) fx0)"

subsection \<open>Examples\<close>

text \<open>
  A stand-in for the public suffix list at names whose public suffix is their last
  label, as \<open>com\<close> is for \<open>contoso.onmicrosoft.com\<close>: the registered domain is the
  last two labels. It is not the library's answer for a name under a suffix of several
  labels or under a private suffix.
\<close>

fun splitDots :: "string \<Rightarrow> string list" where
  "splitDots [] = [[]]"
| "splitDots (x # xs) =
     (if x = CHR ''.'' then [] # splitDots xs
      else (case splitDots xs of
              w # ws \<Rightarrow> (x # w) # ws
            | [] \<Rightarrow> [[x]]))"

definition lastTwoLabels :: "string \<Rightarrow> string option" where
  "lastTwoLabels d =
     (let ls = splitDots d; k = length ls
      in if 2 \<le> k \<and> [] \<notin> set ls then Some (ls ! (k - 2) @ ''.'' @ ls ! (k - 1))
         else None)"

definition exampleEvent :: Event where
  "exampleEvent = \<lparr>evName = ''example.com'', evEntity = fq ''example.com'', evSession = Some 7\<rparr>"

definition freshState :: pstate where
  "freshState = \<lparr>requests = 0, props = [], clock = 100, processed = [], errlog = []\<rparr>"

text \<open>An order in which \<open>Slice\<close> may give the names back: the last inserted first.\<close>

definition mapOrder :: "string list \<Rightarrow> string list" where
  "mapOrder names = rev names"

definition storeAll :: "string list \<Rightarrow> Entity list" where
  "storeAll names = map fq names"

definition answerPartner :: "string \<Rightarrow> soap_result" where
  "answerPartner name = Domains [''Example.com'', ''www.example.com'', ''partner.org'']"

definition answerNothing :: "string \<Rightarrow> soap_result" where
  "answerNothing name = Domains []"

definition answerMixedCase :: "string \<Rightarrow> soap_result" where
  "answerMixedCase name = Domains [''contoso.OnMicrosoft.com'']"

definition exampleScope :: "string \<Rightarrow> asset option \<times> int" where
  "exampleScope name =
     (if domainNameInScope name [''example.com''] then (Some (FQDN name), 100)
      else (None, 0))"

definition exampleConf :: "string \<Rightarrow> int" where
  "exampleConf name = snd (exampleScope name)"

definition createFQDN :: "string \<Rightarrow> Entity option" where
  "createFQDN name = Some (fq name)"

definition dispatchOk :: "Event \<Rightarrow> string option" where
  "dispatchOk ev = None"

definition noLookup :: "string \<Rightarrow> time \<Rightarrow> Entity list" where
  "noLookup name since = []"

section \<open>Theorems\<close>

subsection \<open>Scope membership\<close>

lemma scopeLoop_iff:
  "scopeLoop n scope \<longleftrightarrow> (\<exists>r \<in> set scope. n = ToLower r \<or> HasSuffix n (''.'' @ ToLower r))"
  by (induction scope) (auto simp: Let_def)

lemma domainNameInScope_trimmed:
  "domainNameInScope name scope \<longleftrightarrow> inScopeSpec (TrimSpace name) scope"
  by (simp add: domainNameInScope_def inScopeSpec_def matchesRoot_def scopeLoop_iff)

text \<open>
  C1. Scope membership is suffix-based and case-insensitive: for every domain name
  \<open>d\<close> (a name without white space around it, which \<open>TrimSpace\<close> leaves as it is) and
  every list of root domains, \<open>domainNameInScope\<close> answers true if and only if some
  root \<open>r\<close> of the list is such that \<open>d\<close> equals \<open>r\<close> or \<open>d\<close> ends with \<open>"." + r\<close>,
  compared without regard to case; otherwise it answers false.
\<close>

theorem domainNameInScope_suffix_case_insensitive:
  assumes "TrimSpace d = d"
  shows "domainNameInScope d scope \<longleftrightarrow>
         (\<exists>r \<in> set scope. ToLower d = ToLower r \<or> HasSuffix (ToLower d) (''.'' @ ToLower r))"
  using assms domainNameInScope_trimmed [of d scope]
  by (simp add: inScopeSpec_def matchesRoot_def)

theorem domainNameInScope_suffix_case_insensitive_witness:
  "TrimSpace ''API.Example.com'' = ''API.Example.com'' \<and>
   domainNameInScope ''API.Example.com'' [''example.org'', ''EXAMPLE.com''] \<and>
   \<not> domainNameInScope ''notexample.com'' [''example.com'']"
proof -
  have t1: "TrimSpace ''API.Example.com'' = ''API.Example.com''"
    by code_simp
  have r1: "\<exists>r \<in> set [''example.org'', ''EXAMPLE.com''].
              ToLower ''API.Example.com'' = ToLower r \<or>
              HasSuffix (ToLower ''API.Example.com'') (''.'' @ ToLower r)"
    by code_simp
  have p1: "domainNameInScope ''API.Example.com'' [''example.org'', ''EXAMPLE.com'']"
    using domainNameInScope_suffix_case_insensitive [OF t1, of "[''example.org'', ''EXAMPLE.com'']"] r1
    by blast
  have t2: "TrimSpace ''notexample.com'' = ''notexample.com''"
    by code_simp
  have r2: "\<not> (\<exists>r \<in> set [''example.com''].
              ToLower ''notexample.com'' = ToLower r \<or>
              HasSuffix (ToLower ''notexample.com'') (''.'' @ ToLower r))"
    by code_simp
  have p2: "\<not> domainNameInScope ''notexample.com'' [''example.com'']"
    using domainNameInScope_suffix_case_insensitive [OF t2, of "[''example.com'']"] r2
    by blast
  from t1 p1 p2 show ?thesis by blast
qed


subsection \<open>Kill and Done\<close>

lemma Kill_closes: "Kill s = Inr (s\<lparr>done_ch := Closed\<rparr>)"
  by (cases "done_ch s") (simp_all add: Kill_def close_chan_def)

text \<open>
  C8. \<open>Session.Kill\<close> is idempotent: it never panics; after a first \<open>Kill\<close> the
  session's \<open>Done\<close> is true, the channel having been closed by that call when it was
  open, and a second \<open>Kill\<close> returns without an error and leaves the session as the
  first one left it, so the channel is closed once only.
\<close>

theorem Kill_idempotent:
  "\<exists>s1. Kill s = Inr s1 \<and> Done s1 \<and> Kill s1 = Inr s1 \<and>
        s1 = s\<lparr>done_ch := Closed\<rparr>"
  by (simp add: Kill_closes Done_def)

theorem Kill_idempotent_witness:
  "Kill \<lparr>sid = 7, c = Some Live, db = Some Live, eventset = None, tmpdir = ''/tmp/amass7'',
         stats = \<lparr>WorkItemsCompleted = 1, WorkItemsTotal = 3\<rparr>, done_ch = Open\<rparr>
   = Inr \<lparr>sid = 7, c = Some Live, db = Some Live, eventset = None, tmpdir = ''/tmp/amass7'',
         stats = \<lparr>WorkItemsCompleted = 1, WorkItemsTotal = 3\<rparr>, done_ch = Closed\<rparr> \<and>
   Kill \<lparr>sid = 7, c = Some Live, db = Some Live, eventset = None, tmpdir = ''/tmp/amass7'',
         stats = \<lparr>WorkItemsCompleted = 1, WorkItemsTotal = 3\<rparr>, done_ch = Closed\<rparr>
   = Inr \<lparr>sid = 7, c = Some Live, db = Some Live, eventset = None, tmpdir = ''/tmp/amass7'',
         stats = \<lparr>WorkItemsCompleted = 1, WorkItemsTotal = 3\<rparr>, done_ch = Closed\<rparr>"
  using Kill_idempotent [of "\<lparr>sid = 7, c = Some Live, db = Some Live, eventset = None,
         tmpdir = ''/tmp/amass7'', stats = \<lparr>WorkItemsCompleted = 1, WorkItemsTotal = 3\<rparr>,
         done_ch = Open\<rparr>"]
  by auto


subsection \<open>NewManager\<close>

text \<open>
  C10. In \<open>NewManager\<close> of engine/sessions/manager.go the branch that logs
  "Redis address or password not set in environment variables" is unreachable: the
  address and the password are non-empty constants, so whatever the ping answers that
  line is never logged, and the constructor returns \<open>nil\<close> exactly when the ping of
  \<open>redis:6379\<close> failed, and a manager with an empty session table otherwise.
\<close>

theorem NewManager_config_branch_unreachable:
  "LogError ''Redis address or password not set in environment variables''
     \<notin> set (fst (NewManager ping)) \<and>
   (snd (NewManager ping) = None) = (\<not> ping ''redis:6379'' ''amass4OWASP'') \<and>
   (ping ''redis:6379'' ''amass4OWASP'') =
     (snd (NewManager ping) =
        Some \<lparr>redis = (''redis:6379'', ''amass4OWASP''), sessions = Map.empty\<rparr>)"
  by (simp add: NewManager_def Let_def)

theorem NewManager_config_branch_unreachable_witness:
  "NewManager (\<lambda>a p. False) = ([LogError ''Failed to connect to Redis''], None) \<and>
   snd (NewManager (\<lambda>a p. a = ''redis:6379'')) =
     Some \<lparr>redis = (''redis:6379'', ''amass4OWASP''), sessions = Map.empty\<rparr>"
  using NewManager_config_branch_unreachable [of "\<lambda>a p. False"]
        NewManager_config_branch_unreachable [of "\<lambda>a p. a = ''redis:6379''"]
  by (simp add: NewManager_def Let_def)

subsection \<open>Alias chains and name resolution\<close>

lemma cnameLoop_counter: "snd (cnameLoop repo since i next visited) \<le> max i 10"
proof (induction repo since i "next" visited rule: cnameLoop.induct)
  case (1 repo since i nxt visited)
  show ?case
    apply (subst cnameLoop.simps)
    using 1
    apply (auto split: option.splits alias_step.splits)
    done
qed

lemma set_findFQDNs:
  "set (findFQDNs repo since names) =
     {e. \<exists>name \<in> set names. FindEntityByContent repo (FQDN name) since = Some [e]}"
  by (induction names) (auto split: option.splits list.splits)

lemma set_fqdnsLoop:
  "fqdnsLoop repo since es acc = Inr pairs \<Longrightarrow>
   set pairs = set acc \<union>
     {(name, ip). \<exists>e \<in> set es. Asset e = FQDN name \<and> resolveFQDN repo since e = Some ip}"
proof (induction es arbitrary: acc)
  case Nil
  then show ?case by simp
next
  case (Cons e es)
  show ?case
  proof (cases "resolveFQDN repo since e")
    case None
    with Cons.prems have "fqdnsLoop repo since es acc = Inr pairs" by simp
    from Cons.IH [OF this] None show ?thesis by auto
  next
    case (Some ip)
    with Cons.prems obtain name where n: "Asset e = FQDN name"
      and r: "fqdnsLoop repo since es (acc @ [(name, ip)]) = Inr pairs"
      by (auto split: asset.splits)
    from Cons.IH [OF r] Some n show ?thesis by auto
  qed
qed

lemma set_NamesToAddrs:
  "NamesToAddrs repo since names = Inr pairs \<Longrightarrow>
   set pairs =
     {(n, ip). \<exists>name \<in> set names. \<exists>e.
        FindEntityByContent repo (FQDN name) since = Some [e] \<and> Asset e = FQDN n \<and>
        resolveFQDN repo since e = Some ip}"
  unfolding NamesToAddrs_def
  by (drule set_fqdnsLoop) (auto simp: set_findFQDNs)

lemma cnameLoop_no_address:
  "(\<And>n e. cnameStep repo since n \<noteq> ReturnAddr e) \<Longrightarrow>
   fst (cnameLoop repo since i nxt visited) = Inl ErrTraverseAliases"
proof (induction repo since i nxt visited rule: cnameLoop.induct)
  case (1 repo since i nxt visited)
  show ?case
    apply (subst cnameLoop.simps)
    using 1
    apply (auto split: option.splits alias_step.splits)
    done
qed


lemma oneMoreNameLoop_find:
  "oneMoreNameLoop repo since es =
     (case List.find isAddressRecord es of
        Some edge \<Rightarrow> getAddr repo (ToEntity edge) since
      | None \<Rightarrow> Inl ErrTraverseFQDN)"
  by (induction es) (auto simp: isAddressRecord_def split: relation.splits)

lemma oneMoreName_find:
  "OutgoingEdges repo f since ''dns_record'' = Some es \<Longrightarrow>
   oneMoreName repo f since =
     (case List.find isAddressRecord es of
        Some edge \<Rightarrow> getAddr repo (ToEntity edge) since
      | None \<Rightarrow> Inl ErrTraverseFQDN)"
  by (cases es) (simp_all add: oneMoreName_def oneMoreNameLoop_find del: oneMoreNameLoop.simps)

lemma cnameLoop_follow:
  "i < 10 \<Longrightarrow> FindEntityById repo (ID x) = Some nd \<Longrightarrow>
   \<not> stringsetHas visited (Key (Asset nd)) \<Longrightarrow>
   cnameStep repo since nd = FollowAlias y \<Longrightarrow>
   cnameLoop repo since i x visited =
     cnameLoop repo since (i + 1) y (stringsetInsert (Key (Asset nd)) visited)"
  by (subst cnameLoop.simps) simp

lemma cnameLoop_address:
  "i < 10 \<Longrightarrow> FindEntityById repo (ID x) = Some nd \<Longrightarrow>
   \<not> stringsetHas visited (Key (Asset nd)) \<Longrightarrow>
   cnameStep repo since nd = ReturnAddr y \<Longrightarrow>
   cnameLoop repo since i x visited = (getAddr repo y since, i)"
  by (subst cnameLoop.simps) simp

lemma stringsetHas_member: "k \<in> s \<Longrightarrow> stringsetHas s k"
  by (simp add: stringsetHas_def)

lemma edgesLoop_append:
  "edgesLoop repo since (pre @ es) =
     (case edgesLoop repo since pre of Some ip \<Rightarrow> Some ip | None \<Rightarrow> edgesLoop repo since es)"
  by (induction pre) (auto split: relation.splits sum.splits)

lemma resolveFQDN_skip:
  assumes "OutgoingEdges repo e since ''dns_record'' = Some (pre @ edge # rest)"
      and "edgesLoop repo since pre = None"
  shows "resolveFQDN repo since e = edgesLoop repo since (edge # rest)"
  using assms by (simp add: resolveFQDN_def edgesLoop_append del: edgesLoop.simps)

text \<open>
  C3. Alias-chain resolution terminates on every graph, cycles included: \<open>cnameLoop\<close>
  is a total function (its counter \<open>i\<close> grows towards 10), and the walk started by
  \<open>cnameQuery\<close> completes at most 10 iterations; at whatever point of the walk the
  node found has a key that is already in the visited set, the walk is left at once,
  with the counter as it is and the error "failed to traverse the aliases"; and on
  every graph where no node offers an address record to the walk, as on an alias
  cycle \<open>a \<rightarrow> b \<rightarrow> a\<close>, \<open>cnameQuery\<close> returns that error. The set compares
  without regard to case, so the walk is left in the same way at a key that the set
  holds in another case.
\<close>

theorem cnameQuery_terminates_within_hop_bound:
  "snd (cnameLoop repo since 0 fqdn {}) \<le> 10 \<and>
   (\<forall>n. FindEntityById repo (ID nxt) = Some n \<and> Key (Asset n) \<in> visited \<longrightarrow>
        cnameLoop repo since i nxt visited = (Inl ErrTraverseAliases, i)) \<and>
   ((\<forall>n e. cnameStep repo since n \<noteq> ReturnAddr e) \<longrightarrow>
        cnameQuery repo fqdn since = Inl ErrTraverseAliases) \<and>
   (\<forall>n. FindEntityById repo (ID nxt) = Some n \<and> stringsetHas visited (Key (Asset n)) \<longrightarrow>
        cnameLoop repo since i nxt visited = (Inl ErrTraverseAliases, i))"
proof -
  have a: "snd (cnameLoop repo since 0 fqdn {}) \<le> 10"
    using cnameLoop_counter [of repo since 0 fqdn "{}"] by simp
  have b: "\<forall>n. FindEntityById repo (ID nxt) = Some n \<and> Key (Asset n) \<in> visited \<longrightarrow>
        cnameLoop repo since i nxt visited = (Inl ErrTraverseAliases, i)"
    by (subst cnameLoop.simps) (auto simp: stringsetHas_member)
  have d: "\<forall>n. FindEntityById repo (ID nxt) = Some n \<and> stringsetHas visited (Key (Asset n)) \<longrightarrow>
        cnameLoop repo since i nxt visited = (Inl ErrTraverseAliases, i)"
    by (subst cnameLoop.simps) auto
  have c: "(\<forall>n e. cnameStep repo since n \<noteq> ReturnAddr e) \<longrightarrow>
        cnameQuery repo fqdn since = Inl ErrTraverseAliases"
    unfolding cnameQuery_def using cnameLoop_no_address [of repo since 0 fqdn "{}"] by blast
  from a b c d show ?thesis by (intro conjI)
qed

theorem cnameQuery_terminates_within_hop_bound_witness:
  "cnameLoop cycleRepo 0 0 (fq ''a'') {} = (Inl ErrTraverseAliases, 2) \<and>
   cnameLoop cycleRepo 0 2 (fq ''a'') {''a'', ''b''} = (Inl ErrTraverseAliases, 2) \<and>
   cnameQuery cycleRepo (fq ''a'') 0 = Inl ErrTraverseAliases \<and>
   cnameLoop caseRepo 0 1 (fq ''host.example'') {''host.example''}
     = (Inl ErrTraverseAliases, 1) \<and>
   cnameQuery caseRepo (fq ''Host.example'') 0 = Inl ErrTraverseAliases"
proof -
  have run: "cnameLoop cycleRepo 0 0 (fq ''a'') {} = (Inl ErrTraverseAliases, 2)"
    by code_simp
  have other_case: "cnameQuery caseRepo (fq ''Host.example'') 0 = Inl ErrTraverseAliases"
    by code_simp
  have found': "FindEntityById caseRepo (ID (fq ''host.example'')) = Some (fq ''host.example'')"
    by code_simp
  have seen': "stringsetHas {''host.example''} (Key (Asset (fq ''host.example'')))"
    by code_simp
  note inst' = cnameQuery_terminates_within_hop_bound
    [of caseRepo 0 "fq ''Host.example''" "fq ''host.example''" "{''host.example''}" 1]
  from inst' [THEN conjunct2, THEN conjunct2, THEN conjunct2, THEN spec, THEN mp,
      OF conjI [OF found' seen']]
  have abort': "cnameLoop caseRepo 0 1 (fq ''host.example'') {''host.example''}
     = (Inl ErrTraverseAliases, 1)" .
  have found: "FindEntityById cycleRepo (ID (fq ''a'')) = Some (fq ''a'')"
    by code_simp
  have seen: "Key (Asset (fq ''a'')) \<in> {''a'', ''b''}"
    by (simp add: fq_def)
  have noaddr: "\<forall>n e. cnameStep cycleRepo 0 n \<noteq> ReturnAddr e"
    by (auto simp: cnameStep_def cycleRepo_def memRepo_def dnsEdge_def fq_def)
  note inst = cnameQuery_terminates_within_hop_bound
    [of cycleRepo 0 "fq ''a''" "fq ''a''" "{''a'', ''b''}" 2]
  from inst found seen
  have abort: "cnameLoop cycleRepo 0 2 (fq ''a'') {''a'', ''b''} = (Inl ErrTraverseAliases, 2)"
    by blast
  from inst noaddr have fail: "cnameQuery cycleRepo (fq ''a'') 0 = Inl ErrTraverseAliases"
    by blast
  from run abort fail abort' other_case show ?thesis by (intro conjI)
qed

text \<open>
  C6 (as the code has it). \<open>NamesToAddrs\<close> resolves each given name through its
  outgoing \<open>dns_record\<close> edges according to the kind of the relation together with
  the record type. Take a name given to it that has exactly one entity, an FQDN \<open>n\<close>,
  and an edge \<open>edge\<close> of that entity before which no edge resolves. When \<open>edge\<close> is
  an address record held in a basic DNS relation (type 1 or 28) whose target is an
  address, the pair of \<open>n\<close> and that address is in the result. When it is a CNAME
  record held in a basic DNS relation (type 5), the pair of \<open>n\<close> and the address that
  \<open>cnameQuery\<close> finds from the alias target is in the result, where each step of
  \<open>cnameQuery\<close> at a node whose key the set does not hold either returns the address
  of the node's address record or goes on, one iteration later, from the target of the
  node's CNAME record. When it is an NS or MX record held in a preference relation
  (type 2 or 15) or an SRV record held in a service relation (type 33), the pair of
  \<open>n\<close> and the address that \<open>oneMoreName\<close> finds is in the result, which is the
  address behind the first address record of the referenced name, one hop further and
  no more. An edge whose relation and record type do not pair in one of these ways (a
  basic relation of a type other than 1, 28 and 5, a preference relation of a type other
  than 2 and 15, a service relation of a type other than 33) is passed over. Every pair
  of the result is the name of a given name's entity with the address its edges resolve
  to.
\<close>

theorem NamesToAddrs_by_record_type:
  assumes run: "NamesToAddrs repo since names = Inr pairs"
      and name: "name \<in> set names"
      and ent: "FindEntityByContent repo (FQDN name) since = Some [e]"
      and asset: "Asset e = FQDN n"
      and edges: "OutgoingEdges repo e since ''dns_record'' = Some (pre @ edge # rest)"
      and before: "edgesLoop repo since pre = None"
  shows "(Relation edge = BasicDNSRelation t \<and> (t = 1 \<or> t = 28) \<and>
            getAddr repo (ToEntity edge) since = Inr ip \<longrightarrow> (n, ip) \<in> set pairs) \<and>
         (Relation edge = BasicDNSRelation 5 \<and>
            cnameQuery repo (ToEntity edge) since = Inr ip \<longrightarrow> (n, ip) \<in> set pairs) \<and>
         ((Relation edge = PrefDNSRelation 2 \<or> Relation edge = PrefDNSRelation 15 \<or>
           Relation edge = SRVDNSRelation 33) \<and>
            oneMoreName repo (ToEntity edge) since = Inr ip \<longrightarrow> (n, ip) \<in> set pairs) \<and>
         (\<forall>f es. OutgoingEdges repo f since ''dns_record'' = Some es \<longrightarrow>
            oneMoreName repo f since =
              (case List.find isAddressRecord es of
                 Some edge' \<Rightarrow> getAddr repo (ToEntity edge') since
               | None \<Rightarrow> Inl ErrTraverseFQDN)) \<and>
         (\<forall>i x nd visited y. i < 10 \<and> FindEntityById repo (ID x) = Some nd \<and>
            \<not> stringsetHas visited (Key (Asset nd)) \<longrightarrow>
            (cnameStep repo since nd = FollowAlias y \<longrightarrow>
               cnameLoop repo since i x visited =
                 cnameLoop repo since (i + 1) y (stringsetInsert (Key (Asset nd)) visited)) \<and>
            (cnameStep repo since nd = ReturnAddr y \<longrightarrow>
               fst (cnameLoop repo since i x visited) = getAddr repo y since)) \<and>
         (\<forall>t x es.
            (Relation x = BasicDNSRelation t \<and> t \<noteq> 1 \<and> t \<noteq> 28 \<and> t \<noteq> 5 \<longrightarrow>
               edgesLoop repo since (x # es) = edgesLoop repo since es) \<and>
            (Relation x = PrefDNSRelation t \<and> t \<noteq> 2 \<and> t \<noteq> 15 \<longrightarrow>
               edgesLoop repo since (x # es) = edgesLoop repo since es) \<and>
            (Relation x = SRVDNSRelation t \<and> t \<noteq> 33 \<longrightarrow>
               edgesLoop repo since (x # es) = edgesLoop repo since es)) \<and>
         (\<forall>p \<in> set pairs. \<exists>name' \<in> set names. \<exists>e'.
            FindEntityByContent repo (FQDN name') since = Some [e'] \<and>
            Asset e' = FQDN (fst p) \<and> resolveFQDN repo since e' = Some (snd p))"
proof -
  have pairs: "set pairs =
     {(n, ip). \<exists>name \<in> set names. \<exists>e.
        FindEntityByContent repo (FQDN name) since = Some [e] \<and> Asset e = FQDN n \<and>
        resolveFQDN repo since e = Some ip}"
    using run by (rule set_NamesToAddrs)
  have mem: "(n, ip) \<in> set pairs" if "edgesLoop repo since (edge # rest) = Some ip" for ip
  proof -
    from that have "resolveFQDN repo since e = Some ip"
      by (simp only: resolveFQDN_skip [OF edges before])
    with name ent asset show ?thesis
      unfolding pairs by blast
  qed
  have a: "Relation edge = BasicDNSRelation t \<and> (t = 1 \<or> t = 28) \<and>
            getAddr repo (ToEntity edge) since = Inr ip \<longrightarrow> (n, ip) \<in> set pairs"
    by (auto intro!: mem)
  have b: "Relation edge = BasicDNSRelation 5 \<and>
            cnameQuery repo (ToEntity edge) since = Inr ip \<longrightarrow> (n, ip) \<in> set pairs"
    by (auto intro!: mem)
  have c: "(Relation edge = PrefDNSRelation 2 \<or> Relation edge = PrefDNSRelation 15 \<or>
           Relation edge = SRVDNSRelation 33) \<and>
            oneMoreName repo (ToEntity edge) since = Inr ip \<longrightarrow> (n, ip) \<in> set pairs"
    by (auto intro!: mem)
  have d: "\<forall>f es. OutgoingEdges repo f since ''dns_record'' = Some es \<longrightarrow>
            oneMoreName repo f since =
              (case List.find isAddressRecord es of
                 Some edge' \<Rightarrow> getAddr repo (ToEntity edge') since
               | None \<Rightarrow> Inl ErrTraverseFQDN)"
    by (simp add: oneMoreName_find)
  have e: "\<forall>i x nd visited y. i < 10 \<and> FindEntityById repo (ID x) = Some nd \<and>
            \<not> stringsetHas visited (Key (Asset nd)) \<longrightarrow>
            (cnameStep repo since nd = FollowAlias y \<longrightarrow>
               cnameLoop repo since i x visited =
                 cnameLoop repo since (i + 1) y (stringsetInsert (Key (Asset nd)) visited)) \<and>
            (cnameStep repo since nd = ReturnAddr y \<longrightarrow>
               fst (cnameLoop repo since i x visited) = getAddr repo y since)"
    by (simp add: cnameLoop_follow cnameLoop_address)
  have g: "\<forall>t x es.
            (Relation x = BasicDNSRelation t \<and> t \<noteq> 1 \<and> t \<noteq> 28 \<and> t \<noteq> 5 \<longrightarrow>
               edgesLoop repo since (x # es) = edgesLoop repo since es) \<and>
            (Relation x = PrefDNSRelation t \<and> t \<noteq> 2 \<and> t \<noteq> 15 \<longrightarrow>
               edgesLoop repo since (x # es) = edgesLoop repo since es) \<and>
            (Relation x = SRVDNSRelation t \<and> t \<noteq> 33 \<longrightarrow>
               edgesLoop repo since (x # es) = edgesLoop repo since es)"
    by simp
  have f: "\<forall>p \<in> set pairs. \<exists>name' \<in> set names. \<exists>e'.
            FindEntityByContent repo (FQDN name') since = Some [e'] \<and>
            Asset e' = FQDN (fst p) \<and> resolveFQDN repo since e' = Some (snd p)"
    unfolding pairs by auto
  from a b c d e g f show ?thesis by (intro conjI)
qed


theorem NamesToAddrs_by_record_type_witness:
  "NamesToAddrs zoneRepo 0 zoneNames =
     Inr [(''www.example.com'', ''192.0.2.1''), (''mail.example.com'', ''2001:db8::2''),
          (''example.com'', ''192.0.2.3''), (''_sip._tcp.example.com'', ''192.0.2.1'')] \<and>
   (''example.com'', ''192.0.2.3'') \<in>
     set [(''www.example.com'', ''192.0.2.1''), (''mail.example.com'', ''2001:db8::2''),
          (''example.com'', ''192.0.2.3''), (''_sip._tcp.example.com'', ''192.0.2.1'')]"
proof -
  let ?pairs = "[(''www.example.com'', ''192.0.2.1''), (''mail.example.com'', ''2001:db8::2''),
          (''example.com'', ''192.0.2.3''), (''_sip._tcp.example.com'', ''192.0.2.1'')]"
  let ?ns = "dnsEdge (BasicDNSRelation 2) (fq ''example.com'') (fq ''ns1.example.net'')"
  let ?mx = "dnsEdge (PrefDNSRelation 15) (fq ''example.com'') (fq ''mx1.example.com'')"
  have run: "NamesToAddrs zoneRepo 0 zoneNames = Inr ?pairs"
    by code_simp
  have name: "''example.com'' \<in> set zoneNames"
    by (simp add: zoneNames_def)
  have ent: "FindEntityByContent zoneRepo (FQDN ''example.com'') 0 = Some [fq ''example.com'']"
    by code_simp
  have asset: "Asset (fq ''example.com'') = FQDN ''example.com''"
    by (simp add: fq_def)
  have edges: "OutgoingEdges zoneRepo (fq ''example.com'') 0 ''dns_record''
                 = Some ([?ns] @ ?mx # [])"
    by code_simp
  have before: "edgesLoop zoneRepo 0 [?ns] = None"
    by code_simp
  have rel: "Relation ?mx = PrefDNSRelation 15"
    by (simp add: dnsEdge_def)
  have hop: "oneMoreName zoneRepo (ToEntity ?mx) 0 = Inr ''192.0.2.3''"
    by code_simp
  note inst = NamesToAddrs_by_record_type [OF run name ent asset edges before,
      where ip = "''192.0.2.3''"]
  from inst [THEN conjunct2, THEN conjunct2, THEN conjunct1] rel hop
  have "(''example.com'', ''192.0.2.3'') \<in> set ?pairs"
    by blast
  with run show ?thesis by (rule conjI)
qed

text \<open>
  The claim as the specification states it tells the records by their type alone. It
  fails for a name-server record (type 2) held in a basic DNS relation: the name has
  this record, the name server it refers to has an address record that
  \<open>oneMoreName\<close> resolves, and \<open>NamesToAddrs\<close> returns no pair for the name.
\<close>

theorem NamesToAddrs_record_type_counterexample:
  "OutgoingEdges nsRepo (fq ''example.com'') 0 ''dns_record''
     = Some [dnsEdge (BasicDNSRelation 2) (fq ''example.com'') (fq ''ns1.example.net'')] \<and>
   oneMoreName nsRepo (fq ''ns1.example.net'') 0 = Inr ''192.0.2.53'' \<and>
   NamesToAddrs nsRepo 0 [''example.com''] = Inr []"
  by code_simp


subsection \<open>CancelSession\<close>

lemma pollLoop_left:
  "fst (pollLoop s ticks) \<longleftrightarrow> (\<exists>ss \<in> set ticks. WorkItemsTotal ss = WorkItemsCompleted ss)"
  by (induction ticks arbitrary: s) (auto simp: Let_def)

lemma pollLoop_fields:
  "c (snd (pollLoop s ticks)) = c s \<and> db (snd (pollLoop s ticks)) = db s \<and>
   eventset (snd (pollLoop s ticks)) = eventset s \<and>
   tmpdir (snd (pollLoop s ticks)) = tmpdir s \<and>
   done_ch (snd (pollLoop s ticks)) = done_ch s"
  by (induction ticks arbitrary: s) (auto simp: Let_def)

lemma closeHandle_twice: "closeHandle (closeHandle h) = closeHandle h"
  by (cases h) (simp_all add: closeHandle_def)

lemma RemoveAll_removes: "dir \<notin> RemoveAll dir ds"
  by (simp add: RemoveAll_def underDir_def)

lemma RemoveAll_twice: "RemoveAll dir (RemoveAll dir ds) = RemoveAll dir ds"
  by (auto simp: RemoveAll_def)

lemma CancelSession_unfold:
  assumes "GetSession (mgr w) i = Some s"
  shows "CancelSession w i ticks =
      (let s2 = fst (Delete (s\<lparr>done_ch := Closed\<rparr>) (dirs w));
           ds2 = snd (Delete (s\<lparr>done_ch := Closed\<rparr>) (dirs w));
           s3 = snd (pollLoop s2 ticks);
           w1 = w\<lparr>mgr := (mgr w)\<lparr>sessions := (sessions (mgr w))(i \<mapsto> s3)\<rparr>, dirs := ds2\<rparr>
       in if fst (pollLoop s2 ticks) then releaseSession w1 i else Blocked w1)"
  using assms by (simp add: CancelSession_def Kill_closes Let_def split_beta)

text \<open>
  What holds of \<open>CancelSession\<close>: it does not return while every tick sees fewer
  items completed than the total, it returns at a tick that sees the counters equal,
  with the session out of the registry and its handles released, and it returns only so.
\<close>

lemma CancelSession_blocked_while_busy:
  assumes "GetSession (mgr w) i = Some s"
      and "\<forall>ss \<in> set ticks. WorkItemsCompleted ss < WorkItemsTotal ss"
  shows "\<exists>w1 s1. CancelSession w i ticks = Blocked w1 \<and> GetSession (mgr w1) i = Some s1 \<and>
           c s1 = closeHandle (c s) \<and> db s1 = closeHandle (db s) \<and>
           eventset s1 = eventset s \<and>
           dirs w1 = (if tmpdir s \<noteq> [] then RemoveAll (tmpdir s) (dirs w) else dirs w)"
proof -
  from assms(2) have "\<not> fst (pollLoop x ticks)" for x
    unfolding pollLoop_left by fastforce
  then show ?thesis
    using pollLoop_fields
    by (simp add: CancelSession_unfold [OF assms(1)] Let_def Delete_def GetSession_def)
qed

lemma CancelSession_returns_once_equal:
  assumes "GetSession (mgr w) i = Some s"
      and "\<exists>ss \<in> set ticks. WorkItemsTotal ss = WorkItemsCompleted ss"
  shows "\<exists>w2 s2. CancelSession w i ticks = Returned w2 (Some s2) \<and>
           GetSession (mgr w2) i = None \<and>
           c s2 = closeHandle (c s) \<and> db s2 = closeHandle (db s) \<and>
           eventset s2 = closeHandle (eventset s) \<and>
           (tmpdir s \<noteq> [] \<longrightarrow> tmpdir s \<notin> dirs w2)"
proof -
  from assms(2) have "fst (pollLoop x ticks)" for x
    unfolding pollLoop_left .
  then show ?thesis
    using pollLoop_fields
    by (simp add: CancelSession_unfold [OF assms(1)] Let_def Delete_def GetSession_def
          releaseSession_def closeHandle_twice RemoveAll_twice RemoveAll_removes)
qed

lemma CancelSession_returns_only_if_equal:
  assumes "GetSession (mgr w) i = Some s" and "CancelSession w i ticks = Returned w2 r"
  shows "\<exists>ss \<in> set ticks. WorkItemsTotal ss = WorkItemsCompleted ss"
  using assms(2)
  by (auto simp: CancelSession_unfold [OF assms(1)] Let_def pollLoop_left split: if_splits)

lemma CancelSession_example_drained:
  "(case CancelSession exampleWorld 7 drainedTicks of
      Returned w2 r \<Rightarrow>
        GetSession (mgr w2) 7 = None \<and> map_option c r = Some (Some Released) \<and>
        map_option db r = Some (Some Released) \<and> dirs w2 = {''/tmp'', ''/tmp/amass77''}
    | Blocked w1 \<Rightarrow> False
    | Panicked p \<Rightarrow> False)"
  by code_simp



subsection \<open>The plugin's query and its handlers\<close>

lemma setInsert_not_Nil: "setInsert x xs \<noteq> []"
  by (auto simp: setInsert_def)

lemma insertLower_Nil_iff: "insertLower ds subs = [] \<longleftrightarrow> ds = [] \<and> subs = []"
  by (induction ds arbitrary: subs) (auto simp: setInsert_not_Nil)

lemma set_setInsert: "set (setInsert x xs) = insert x (set xs)"
  by (auto simp: setInsert_def)

text \<open>
  What \<open>query_gated\<close> hands to \<open>store\<close>: each name is the lower-cased registered
  domain of a response domain that does not end, byte for byte, with
  \<open>onmicrosoft.com\<close>.
\<close>

lemma bareDomains_sound:
  "set (bareDomains etld1 ds subs) =
     set subs \<union> {ToLower b | b d. d \<in> set ds \<and> \<not> HasSuffix d ''onmicrosoft.com'' \<and>
                                    etld1 d = Some b}"
  by (induction ds arbitrary: subs) (auto simp: set_setInsert split: option.splits)

lemma toLowerByte_not_upper: "\<not> isUpperASCII (toLowerByte ch)"
proof -
  have "\<not> (65 \<le> (of_char (char_of (n + 32) :: char) :: nat) \<and>
          (of_char (char_of (n + 32) :: char) :: nat) \<le> 90)"
    if "65 \<le> n" "n \<le> 90" for n :: nat
  proof -
    from that have "(n + 32) mod 256 = n + 32" by simp
    then have "(of_char (char_of (n + 32) :: char) :: nat) = n + 32"
      by (simp add: of_char_of)
    with that show ?thesis by simp
  qed
  then show ?thesis
    by (auto simp: toLowerByte_def isUpperASCII_def)
qed

lemma bareDomains_lower:
  assumes "\<forall>s \<in> set subs. \<forall>ch \<in> set s. \<not> isUpperASCII ch"
      and "n \<in> set (bareDomains etld1 ds subs)" and "ch \<in> set n"
  shows "\<not> isUpperASCII ch"
proof -
  from assms(2) consider "n \<in> set subs" | b where "n = ToLower b"
    unfolding bareDomains_sound by blast
  then show ?thesis
  proof cases
    case 1
    with assms(1,3) show ?thesis by blast
  next
    case 2
    with assms(3) show ?thesis
      by (auto simp: ToLower_def toLowerByte_not_upper)
  qed
qed

text \<open>
  The handler of engine/plugins/scrape/letitgo.go posts a request for every event
  whose entity is an FQDN and whose session is set, whatever the marks say.
\<close>

lemma check_always_posts:
  assumes "Asset (evEntity e) = FQDN name" and "evSession e \<noteq> None"
  shows "requests (snd (check st e post slice store)) = requests st + 1"
  using assms
  by (auto simp: check_def query_def Let_def MarkAssetMonitored_def process_def logError_def
           split: soap_result.splits)

text \<open>
  The handler that checks the TTL, for an event in scope: on a hit it posts nothing and
  hands the looked-up assets to \<open>process\<close>; on a miss it posts one request, and when
  the query returns without error the asset is marked, so that the next call with the
  same start time is a hit.
\<close>

lemma check_gated_ttl_hit:
  assumes "Asset (evEntity e) = FQDN name" and "evSession e \<noteq> None"
      and "inScope name = (Some (FQDN f), conf)" and "conf \<noteq> 0" and "EqualFold name f"
      and "AssetMonitoredWithinTTL st (evEntity e) sourceName since"
  shows "check_gated st e inScope (Some since) lookup post etld1 slice store =
           (Inr None, if length (lookup name since) > 0 then process st (lookup name since)
                      else st)"
    and "requests (snd (check_gated st e inScope (Some since) lookup post etld1 slice store))
           = requests st"
  using assms by (auto simp: check_gated_def Let_def process_def)

lemma check_gated_ttl_miss:
  assumes "Asset (evEntity e) = FQDN name" and "evSession e \<noteq> None"
      and "inScope name = (Some (FQDN f), conf)" and "conf \<noteq> 0" and "EqualFold name f"
      and "\<not> AssetMonitoredWithinTTL st (evEntity e) sourceName since"
  shows "requests (snd (check_gated st e inScope (Some since) lookup post etld1 slice store))
           = requests st + 1"
    and "fst (query_gated st (Some e) name post etld1 slice store) = Inr ents \<Longrightarrow> since \<le> clock st \<Longrightarrow>
         AssetMonitoredWithinTTL
           (snd (check_gated st e inScope (Some since) lookup post etld1 slice store))
           (evEntity e) sourceName since"
  using assms
  by (auto simp: check_gated_def query_gated_def Let_def process_def MarkAssetMonitored_def
        AssetMonitoredWithinTTL_def logError_def split: soap_result.splits if_splits)

text \<open>
  C2 (the code departs from the claim). The handler \<open>check\<close> of
  engine/plugins/scrape/letitgo.go never consults \<open>AssetMonitoredWithinTTL\<close>: handling
  the same event twice posts two requests, the second one although the first call has
  marked the asset as monitored. The handler of the version that checks the TTL posts
  one request for the same two events.
\<close>

theorem check_posts_again_within_ttl:
  "AssetMonitoredWithinTTL (snd (check freshState exampleEvent answerPartner mapOrder storeAll))
     (evEntity exampleEvent) sourceName 0 \<and>
   requests (snd (check freshState exampleEvent answerPartner mapOrder storeAll)) = 1 \<and>
   requests (snd (check (snd (check freshState exampleEvent answerPartner mapOrder storeAll))
                    exampleEvent answerPartner mapOrder storeAll)) = 2 \<and>
   requests (snd (check_gated
                    (snd (check_gated freshState exampleEvent exampleScope (Some 0) noLookup
                            answerPartner lastTwoLabels mapOrder storeAll))
                    exampleEvent exampleScope (Some 0) noLookup
                    answerPartner lastTwoLabels mapOrder storeAll)) = 1"
  by code_simp

lemma dispatchLoop_invariant:
  assumes "dispatchLoop e conf createAsset dispatchEvent bs fx = (r, fx')"
      and "set bs \<subseteq> S"
      and "\<forall>d \<in> set (createAssetCalls fx). 0 < conf d \<and> d \<in> S"
      and "\<forall>ev \<in> set (dispatched fx). 0 < conf (evName ev) \<and>
             evName ev \<in> set (createAssetCalls fx) \<and>
             createAsset (evName ev) = Some (evEntity ev)"
  shows "(\<forall>d \<in> set (createAssetCalls fx'). 0 < conf d \<and> d \<in> S) \<and>
         (\<forall>ev \<in> set (dispatched fx'). 0 < conf (evName ev) \<and>
             evName ev \<in> set (createAssetCalls fx') \<and>
             createAsset (evName ev) = Some (evEntity ev))"
  using assms
proof (induction bs arbitrary: fx)
  case Nil
  then show ?case by simp
next
  case (Cons b bs)
  show ?case
  proof (cases "0 < conf b")
    case False
    with Cons.prems(1) have "dispatchLoop e conf createAsset dispatchEvent bs fx = (r, fx')"
      by simp
    from Cons.IH [OF this] Cons.prems show ?thesis by simp
  next
    case True
    let ?fx1 = "fx\<lparr>createAssetCalls := createAssetCalls fx @ [b]\<rparr>"
    have inv1: "\<forall>d \<in> set (createAssetCalls ?fx1). 0 < conf d \<and> d \<in> S"
      using Cons.prems True by auto
    have inv1': "\<forall>ev \<in> set (dispatched ?fx1). 0 < conf (evName ev) \<and>
             evName ev \<in> set (createAssetCalls ?fx1) \<and>
             createAsset (evName ev) = Some (evEntity ev)"
      using Cons.prems by auto
    show ?thesis
    proof (cases "createAsset b")
      case None
      with True Cons.prems(1)
      have "dispatchLoop e conf createAsset dispatchEvent bs ?fx1 = (r, fx')"
        by (simp add: Let_def)
      from Cons.IH [OF this _ inv1 inv1'] Cons.prems(2) show ?thesis by simp
    next
      case (Some entity)
      let ?ev = "\<lparr>evName = b, evEntity = entity, evSession = evSession e\<rparr>"
      let ?fx2 = "?fx1\<lparr>dispatched := dispatched ?fx1 @ [?ev]\<rparr>"
      have inv2: "\<forall>d \<in> set (createAssetCalls ?fx2). 0 < conf d \<and> d \<in> S"
        using inv1 by simp
      have inv2': "\<forall>ev \<in> set (dispatched ?fx2). 0 < conf (evName ev) \<and>
             evName ev \<in> set (createAssetCalls ?fx2) \<and>
             createAsset (evName ev) = Some (evEntity ev)"
        using inv1' True Some by auto
      show ?thesis
      proof (cases "dispatchEvent ?ev")
        case None
        with True Some Cons.prems(1)
        have "dispatchLoop e conf createAsset dispatchEvent bs ?fx2 = (r, fx')"
          by (simp add: Let_def)
        from Cons.IH [OF this _ inv2 inv2'] Cons.prems(2) show ?thesis by simp
      next
        case (Some err)
        with True \<open>createAsset b = Some entity\<close> Cons.prems(1) have "fx' = ?fx2"
          by (simp add: Let_def)
        with inv2 inv2' show ?thesis by simp
      qed
    qed
  qed
qed

text \<open>
  C5. A found domain that is out of scope is never entered into the engine again. In
  the loop that \<open>Run\<close> (and the \<open>query\<close> that dispatches) runs over its bare domains,
  started with nothing created and nothing dispatched: for a bare domain whose scope
  check gives confidence zero, \<open>CreateAsset\<close> is not called and no event is given to
  the dispatcher; every name for which \<open>CreateAsset\<close> is called is a bare domain of
  positive confidence; every event dispatched carries such a name and the entity that
  \<open>CreateAsset\<close> returned for it. The same holds of \<open>Run\<close> as a whole.
\<close>

theorem out_of_scope_domain_not_reentered:
  assumes "dispatchLoop e conf createAsset dispatchEvent bs
             \<lparr>createAssetCalls = [], dispatched = []\<rparr> = (r, fx)"
  shows "(\<forall>d. conf d = 0 \<longrightarrow>
            d \<notin> set (createAssetCalls fx) \<and> d \<notin> evName ` set (dispatched fx)) \<and>
         (\<forall>d \<in> set (createAssetCalls fx). 0 < conf d \<and> d \<in> set bs) \<and>
         (\<forall>ev \<in> set (dispatched fx). 0 < conf (evName ev) \<and>
            evName ev \<in> set (createAssetCalls fx) \<and>
            createAsset (evName ev) = Some (evEntity ev)) \<and>
         (\<forall>post etld1 r' fx'.
            Run e post etld1 conf createAsset dispatchEvent = (r', fx') \<longrightarrow>
            (\<forall>d. conf d = 0 \<longrightarrow>
               d \<notin> set (createAssetCalls fx') \<and> d \<notin> evName ` set (dispatched fx')) \<and>
            (\<forall>ev \<in> set (dispatched fx'). 0 < conf (evName ev)))"
proof -
  have loop: "(\<forall>d \<in> set (createAssetCalls g). 0 < conf d \<and> d \<in> set xs) \<and>
         (\<forall>ev \<in> set (dispatched g). 0 < conf (evName ev) \<and>
            evName ev \<in> set (createAssetCalls g) \<and>
            createAsset (evName ev) = Some (evEntity ev))"
    if "dispatchLoop e conf createAsset dispatchEvent xs
             \<lparr>createAssetCalls = [], dispatched = []\<rparr> = (q, g)" for xs q g
    using dispatchLoop_invariant [OF that, of "set xs"] by simp
  have zero: "\<forall>d. conf d = 0 \<longrightarrow>
            d \<notin> set (createAssetCalls g) \<and> d \<notin> evName ` set (dispatched g)"
    if "dispatchLoop e conf createAsset dispatchEvent xs
             \<lparr>createAssetCalls = [], dispatched = []\<rparr> = (q, g)" for xs q g
    using loop [OF that] by fastforce
  have run: "(\<forall>d. conf d = 0 \<longrightarrow>
               d \<notin> set (createAssetCalls fx') \<and> d \<notin> evName ` set (dispatched fx')) \<and>
            (\<forall>ev \<in> set (dispatched fx'). 0 < conf (evName ev))"
    if "Run e post etld1 conf createAsset dispatchEvent = (r', fx')" for post etld1 r' fx'
  proof (cases "post (evName e)")
    case (Domains ds)
    with that have "dispatchLoop e conf createAsset dispatchEvent (bareDomains etld1 ds [])
             \<lparr>createAssetCalls = [], dispatched = []\<rparr> = (r', fx')"
      by (simp add: Run_def)
    from zero [OF this] loop [OF this] show ?thesis by blast
  qed (use that in \<open>auto simp: Run_def\<close>)
  from zero [OF assms] loop [OF assms] run show ?thesis by blast
qed

theorem out_of_scope_domain_not_reentered_witness:
  "dispatchLoop exampleEvent exampleConf createFQDN dispatchOk [''www.example.com'', ''partner.org'']
     \<lparr>createAssetCalls = [], dispatched = []\<rparr>
     = (None, \<lparr>createAssetCalls = [''www.example.com''],
               dispatched = [\<lparr>evName = ''www.example.com'', evEntity = fq ''www.example.com'',
                              evSession = Some 7\<rparr>]\<rparr>) \<and>
   exampleConf ''partner.org'' = 0 \<and>
   ''partner.org'' \<notin> set [''www.example.com''] \<and>
   ''partner.org'' \<notin> evName ` set [\<lparr>evName = ''www.example.com'',
                                     evEntity = fq ''www.example.com'', evSession = Some 7\<rparr>]"
proof -
  let ?fx = "\<lparr>createAssetCalls = [''www.example.com''],
               dispatched = [\<lparr>evName = ''www.example.com'', evEntity = fq ''www.example.com'',
                              evSession = Some 7\<rparr>]\<rparr>"
  have run: "dispatchLoop exampleEvent exampleConf createFQDN dispatchOk
       [''www.example.com'', ''partner.org''] \<lparr>createAssetCalls = [], dispatched = []\<rparr>
     = (None, ?fx)"
    by code_simp
  have zero: "exampleConf ''partner.org'' = 0"
    by code_simp
  from out_of_scope_domain_not_reentered [OF run, THEN conjunct1, THEN spec, THEN mp, OF zero]
  have "''partner.org'' \<notin> set (createAssetCalls ?fx) \<and>
        ''partner.org'' \<notin> evName ` set (dispatched ?fx)" .
  with run zero show ?thesis by simp
qed

text \<open>
  C7 (as the code has it). When the request and the decoding succeed but no domain is
  found, \<open>query\<close> returns no result and the error "no valid domains found"; it
  returns without error exactly when at least one domain was found (for the version
  that checks the TTL: at least one registered domain that is not excluded), and the
  result then is what \<open>store\<close> returns for the names of the set, in the order in
  which \<open>Slice\<close> gives them. A failure to post, to read or to parse returns its own
  error. The handler \<open>check\<close> returns \<open>nil\<close> in each of these cases; when nothing was
  found it writes "Query failed" to its log at level Error, as it does for a failed
  search, and does not mark the asset as monitored; when something was found it writes
  nothing to that log.
\<close>

theorem query_without_findings_is_error:
  assumes "evSession ev \<noteq> None"
  shows "(fst (query st (Some ev) name post slice store) = Inl ErrNoValidDomains
            \<longleftrightarrow> post name = Domains []) \<and>
         ((\<exists>ents. fst (query st (Some ev) name post slice store) = Inr ents)
            \<longleftrightarrow> (\<exists>ds. post name = Domains ds \<and> ds \<noteq> [])) \<and>
         (\<forall>ds. post name = Domains ds \<and> ds \<noteq> [] \<longrightarrow>
            fst (query st (Some ev) name post slice store)
              = Inr (store (slice (insertLower ds [])))) \<and>
         (fst (query_gated st (Some ev) name post etld1 slice store) = Inl ErrNoValidDomains
            \<longleftrightarrow> (\<exists>ds. post name = Domains ds \<and> bareDomains etld1 ds [] = [])) \<and>
         ((\<exists>ents. fst (query_gated st (Some ev) name post etld1 slice store) = Inr ents)
            \<longleftrightarrow> (\<exists>ds. post name = Domains ds \<and> bareDomains etld1 ds [] \<noteq> [])) \<and>
         (fst (query st (Some ev) name post slice store)
              \<in> {Inl ErrPost, Inl ErrRead, Inl ErrParse}
            \<longleftrightarrow> post name \<in> {PostFailed, ReadFailed, ParseFailed}) \<and>
         (fst (query_gated st (Some ev) name post etld1 slice store) \<in> {Inl ErrPost, Inl ErrParse}
            \<longleftrightarrow> post name \<in> {PostFailed, ReadFailed, ParseFailed}) \<and>
         (Asset (evEntity ev) = FQDN name \<longrightarrow>
            fst (check st ev post slice store) = Inr None) \<and>
         (Asset (evEntity ev) = FQDN name \<and> post name = Domains [] \<longrightarrow>
            errlog (snd (check st ev post slice store)) = errlog st @ [''Query failed''] \<and>
            props (snd (check st ev post slice store)) = props st) \<and>
         (Asset (evEntity ev) = FQDN name \<and> post name \<in> {PostFailed, ReadFailed, ParseFailed}
            \<longrightarrow> errlog (snd (check st ev post slice store)) = errlog st @ [''Query failed'']) \<and>
         (\<forall>ds. Asset (evEntity ev) = FQDN name \<and> post name = Domains ds \<and> ds \<noteq> [] \<longrightarrow>
            errlog (snd (check st ev post slice store)) = errlog st)"
proof -
  have handler: "Asset (evEntity ev) = FQDN name \<longrightarrow>
            fst (check st ev post slice store) = Inr None"
    by (auto simp: check_def Let_def split: prod.splits sum.splits)
  have logs: "Asset (evEntity ev) = FQDN name \<and> post name = Domains [] \<longrightarrow>
            errlog (snd (check st ev post slice store)) = errlog st @ [''Query failed''] \<and>
            props (snd (check st ev post slice store)) = props st"
    using assms by (auto simp: check_def query_def Let_def logError_def)
  have logs_failed: "Asset (evEntity ev) = FQDN name \<and>
            post name \<in> {PostFailed, ReadFailed, ParseFailed}
            \<longrightarrow> errlog (snd (check st ev post slice store)) = errlog st @ [''Query failed'']"
    using assms by (auto simp: check_def query_def Let_def logError_def)
  have quiet: "\<forall>ds. Asset (evEntity ev) = FQDN name \<and> post name = Domains ds \<and> ds \<noteq> [] \<longrightarrow>
            errlog (snd (check st ev post slice store)) = errlog st"
    using assms
    by (auto simp: check_def query_def Let_def logError_def insertLower_Nil_iff
          MarkAssetMonitored_def process_def)
  have queries: "(fst (query st (Some ev) name post slice store) = Inl ErrNoValidDomains
            \<longleftrightarrow> post name = Domains []) \<and>
         ((\<exists>ents. fst (query st (Some ev) name post slice store) = Inr ents)
            \<longleftrightarrow> (\<exists>ds. post name = Domains ds \<and> ds \<noteq> [])) \<and>
         (\<forall>ds. post name = Domains ds \<and> ds \<noteq> [] \<longrightarrow>
            fst (query st (Some ev) name post slice store)
              = Inr (store (slice (insertLower ds [])))) \<and>
         (fst (query_gated st (Some ev) name post etld1 slice store) = Inl ErrNoValidDomains
            \<longleftrightarrow> (\<exists>ds. post name = Domains ds \<and> bareDomains etld1 ds [] = [])) \<and>
         ((\<exists>ents. fst (query_gated st (Some ev) name post etld1 slice store) = Inr ents)
            \<longleftrightarrow> (\<exists>ds. post name = Domains ds \<and> bareDomains etld1 ds [] \<noteq> [])) \<and>
         (fst (query st (Some ev) name post slice store)
              \<in> {Inl ErrPost, Inl ErrRead, Inl ErrParse}
            \<longleftrightarrow> post name \<in> {PostFailed, ReadFailed, ParseFailed}) \<and>
         (fst (query_gated st (Some ev) name post etld1 slice store) \<in> {Inl ErrPost, Inl ErrParse}
            \<longleftrightarrow> post name \<in> {PostFailed, ReadFailed, ParseFailed})"
    using assms
    by (cases "post name")
       (auto simp: query_def query_gated_def Let_def insertLower_Nil_iff)
  from queries handler logs logs_failed quiet show ?thesis
    by (elim conjE) (intro conjI; assumption)
qed

theorem query_without_findings_is_error_witness:
  "fst (query freshState (Some exampleEvent) ''example.com'' answerNothing mapOrder storeAll)
     = Inl ErrNoValidDomains \<and>
   fst (query freshState (Some exampleEvent) ''example.com'' answerPartner mapOrder storeAll)
     = Inr [fq ''partner.org'', fq ''www.example.com'', fq ''example.com''] \<and>
   errlog (snd (check freshState exampleEvent answerNothing mapOrder storeAll))
     = [''Query failed'']"
proof -
  have sess: "evSession exampleEvent \<noteq> None"
    by (simp add: exampleEvent_def)
  have noDomains: "answerNothing ''example.com'' = Domains []"
    by (simp add: answerNothing_def)
  have some: "answerPartner ''example.com''
                = Domains [''Example.com'', ''www.example.com'', ''partner.org''] \<and>
              [''Example.com'', ''www.example.com'', ''partner.org''] \<noteq> []"
    by (simp add: answerPartner_def)
  have names: "storeAll (mapOrder
                 (insertLower [''Example.com'', ''www.example.com'', ''partner.org''] []))
                 = [fq ''partner.org'', fq ''www.example.com'', fq ''example.com'']"
    by code_simp
  have asset: "Asset (evEntity exampleEvent) = FQDN ''example.com''"
    by (simp add: exampleEvent_def fq_def)
  have fresh: "errlog freshState @ [''Query failed''] = [''Query failed'']"
    by (simp add: freshState_def)
  note inst1 = query_without_findings_is_error
    [OF sess, where st = freshState and name = "''example.com''" and post = answerNothing
       and slice = mapOrder and store = storeAll]
  note inst2 = query_without_findings_is_error
    [OF sess, where st = freshState and name = "''example.com''" and post = answerPartner
       and slice = mapOrder and store = storeAll]
  note a = inst1 [THEN conjunct1, THEN iffD2, OF noDomains]
  note b = inst2 [THEN conjunct2, THEN conjunct2, THEN conjunct1, THEN spec, THEN mp, OF some]
  note lg = inst1 [THEN conjunct2, THEN conjunct2, THEN conjunct2, THEN conjunct2,
      THEN conjunct2, THEN conjunct2, THEN conjunct2, THEN conjunct2, THEN conjunct1,
      THEN mp, OF conjI [OF asset noDomains], THEN conjunct1]
  from lg
  have c: "errlog (snd (check freshState exampleEvent answerNothing mapOrder storeAll))
        = [''Query failed'']"
    by (simp only: fresh)
  from a b [unfolded names] c show ?thesis by (intro conjI)
qed

text \<open>
  The claim as the specification states it, that a query which completes and finds
  nothing returns an empty result and no error, fails on both versions of \<open>query\<close>.
\<close>

theorem query_without_findings_counterexample:
  "fst (query freshState (Some exampleEvent) ''example.com'' answerNothing mapOrder storeAll) \<noteq> Inr [] \<and>
   fst (query freshState (Some exampleEvent) ''example.com'' answerNothing mapOrder storeAll)
     = Inl ErrNoValidDomains \<and>
   fst (query_gated freshState (Some exampleEvent) ''example.com'' answerNothing lastTwoLabels
          mapOrder storeAll) \<noteq> Inr [] \<and>
   fst (query_gated freshState (Some exampleEvent) ''example.com'' answerNothing lastTwoLabels
          mapOrder storeAll) = Inl ErrNoValidDomains"
  by code_simp

text \<open>
  C9 (the code departs from the claim). The test for the suffix \<open>onmicrosoft.com\<close>
  compares bytes and comes before the lower-casing: for the response domain
  \<open>contoso.OnMicrosoft.com\<close>, which does not end with these bytes, the registered
  domain is lower-cased and handed to \<open>store\<close>, and the stored name
  \<open>onmicrosoft.com\<close> ends with the suffix.
\<close>

theorem query_gated_stores_onmicrosoft:
  "bareDomains lastTwoLabels [''contoso.OnMicrosoft.com''] [] = [''onmicrosoft.com''] \<and>
   fst (query_gated freshState (Some exampleEvent) ''contoso.com'' answerMixedCase
          lastTwoLabels mapOrder storeAll) = Inr (storeAll [''onmicrosoft.com'']) \<and>
   HasSuffix ''onmicrosoft.com'' ''onmicrosoft.com''"
  by code_simp

end
